theory Spec2Isabelle
  imports Main "HOL-Library.Sublist"
begin

text \<open>
  A model of the Ralphie agent: the native tool handler \<open>handleNativeTool\<close>, the execution
  sandbox \<open>executeSegment\<close>, the task router and the control loop of \<open>main\<close>, each
  translated from the JavaScript source, and the properties its specification states
  about them.

  The repository holds the agent in several versions. The tool handler is the one of
  the tool-calling agent (\<open>src/unnamed/part_001\<close>, lines 71 to 107); the sandbox, the
  router and the control loop are those of the code-generating agent (the second file
  of \<open>src/unnamed/part_003\<close>, lines 506 to 525 and 547 to 671), whose own tool handler
  (lines 418 to 450) is modelled beside the first, as is the handler of the first file of
  \<open>src/unnamed/part_002\<close> (lines 72 to 97); the first version of the loop and of the
  sandbox (\<open>src/index.js\<close>) is modelled as well.

  The model backend, the tool providers, the child processes, the clock, the path
  functions and the UTF-8 codec of the platform are not part of the repository. They
  enter the model as explicit inputs: the replies the backend gives, the results the
  children return, the functions an environment record carries. A property is proved for
  all of them.

  Text is a list of characters, of which the model has 256. A file holds bytes; the
  codec of the environment turns bytes into text when a file is read and text into bytes
  when it is written.
\<close>

section \<open>JavaScript values and strings\<close>

text \<open>
  Tool-call arguments arrive as a JSON object, so a field holds any JSON value, or
  \<open>undefined\<close> when the key is missing. Numbers are modelled as integers. \<open>JObj s\<close> is an
  array or a plain object; \<open>s\<close> is the text its conversion to a string yields.
  \<open>truthy\<close> is the test of a condition, \<open>ToString\<close> the conversion a template literal,
  \<open>includes\<close>, \<open>split\<close> and \<open>join\<close> apply to an argument.
\<close>

datatype jsval = JUndefined | JNull | JBool bool | JNum int | JStr string | JObj string

type_synonym jsargs = "string \<rightharpoonup> jsval"

definition field :: "jsargs \<Rightarrow> string \<Rightarrow> jsval" where
  "field args k = (case args k of None \<Rightarrow> JUndefined | Some v \<Rightarrow> v)"

fun truthy :: "jsval \<Rightarrow> bool" where
  "truthy JUndefined = False"
| "truthy JNull = False"
| "truthy (JBool b) = b"
| "truthy (JNum n) = (n \<noteq> 0)"
| "truthy (JStr s) = (s \<noteq> [])"
| "truthy (JObj s) = True"

definition digit :: "nat \<Rightarrow> char" where
  "digit d = (case drop d ''0123456789'' of c # cs \<Rightarrow> c | [] \<Rightarrow> CHR ''?'')"

fun show_nat :: "nat \<Rightarrow> string" where
  "show_nat n = (if n < 10 then [digit n] else show_nat (n div 10) @ [digit (n mod 10)])"

declare show_nat.simps [simp del]

definition show_int :: "int \<Rightarrow> string" where
  "show_int i = (if i < 0 then CHR ''-'' # show_nat (nat (- i)) else show_nat (nat i))"

fun ToString :: "jsval \<Rightarrow> string" where
  "ToString JUndefined = ''undefined''"
| "ToString JNull = ''null''"
| "ToString (JBool b) = (if b then ''true'' else ''false'')"
| "ToString (JNum n) = show_int n"
| "ToString (JStr s) = s"
| "ToString (JObj s) = s"

definition dquote :: string where
  "dquote = [CHR 0x22]"

text \<open>\<open>s.includes(sub)\<close>: \<open>sub\<close> starts at some position of \<open>s\<close>.\<close>

fun js_includes :: "string \<Rightarrow> string \<Rightarrow> bool" where
  "js_includes [] sub = (sub = [])"
| "js_includes (c # cs) sub = (prefix sub (c # cs) \<or> js_includes cs sub)"

text \<open>
  \<open>s.split(sep)\<close> for a string separator: an empty separator cuts between all
  characters (and gives no piece for the empty string); otherwise the string is scanned
  from the left, cutting at each occurrence and resuming after it.
\<close>

fun split_from :: "string \<Rightarrow> string \<Rightarrow> string \<Rightarrow> string list" where
  "split_from sep acc [] = [acc]"
| "split_from sep acc (c # cs) =
     (if sep \<noteq> [] \<and> prefix sep (c # cs)
      then acc # split_from sep [] (drop (length sep) (c # cs))
      else split_from sep (acc @ [c]) cs)"

definition js_split :: "string \<Rightarrow> string \<Rightarrow> string list" where
  "js_split sep s = (if sep = [] then map (\<lambda>c. [c]) s else split_from sep [] s)"

fun js_join :: "string \<Rightarrow> string list \<Rightarrow> string" where
  "js_join sep [] = []"
| "js_join sep [p] = p"
| "js_join sep (p # q # ps) = p @ sep @ js_join sep (q # ps)"

text \<open>
  \<open>split\<close> and \<open>join\<close> applied to an argument value: \<open>split(undefined)\<close> does not cut,
  \<open>join(undefined)\<close> joins with a comma, every other value is converted to a string.
\<close>

definition split_val :: "jsval \<Rightarrow> string \<Rightarrow> string list" where
  "split_val v s = (if v = JUndefined then [s] else js_split (ToString v) s)"

definition join_val :: "jsval \<Rightarrow> string list \<Rightarrow> string" where
  "join_val v ps = js_join (if v = JUndefined then '','' else ToString v) ps"

section \<open>Errors and completions\<close>

text \<open>
  The exceptions of the model: a \<open>TypeError\<close> with its text, and the errors of the file
  system with the system call that failed and the path, which make up the message.
\<close>

datatype js_error =
    TypeError string
  | ENOENT string string
  | ENOTDIR string string
  | EACCES string string
  | EISDIR string "string option"

definition squote :: "string \<Rightarrow> string" where
  "squote p = [CHR 0x27] @ p @ [CHR 0x27]"

fun message :: "js_error \<Rightarrow> string" where
  "message (TypeError m) = m"
| "message (ENOENT call p) = ''ENOENT: no such file or directory, '' @ call @ '' '' @ squote p"
| "message (ENOTDIR call p) = ''ENOTDIR: not a directory, '' @ call @ '' '' @ squote p"
| "message (EACCES call p) = ''EACCES: permission denied, '' @ call @ '' '' @ squote p"
| "message (EISDIR call None) = ''EISDIR: illegal operation on a directory, '' @ call"
| "message (EISDIR call (Some p)) =
     ''EISDIR: illegal operation on a directory, '' @ call @ '' '' @ squote p"

text \<open>A call either returns a value or throws.\<close>

datatype 'a completion = Normal 'a | Throw js_error

section \<open>The file system and the environment\<close>

text \<open>
  The file system maps a resolved path to a node: a regular file with its bytes, a
  file the process may read but not write, or a directory. The empty path names no
  file.
\<close>

type_synonym bytes = string

datatype fnode = File bytes | ReadOnlyFile bytes | Directory

type_synonym filesystem = "string \<rightharpoonup> fnode"

text \<open>
  What \<open>spawnSync\<close> returns. \<open>stdout\<close> and \<open>stderr\<close> are missing when the process could
  not be started; \<open>error\<close> carries the error code of a failed or timed-out spawn.
\<close>

record spawn_result =
  stdout :: "string option"
  stderr :: "string option"
  status :: "int option"
  error :: "string option"

text \<open>
  A call of \<open>spawnSync\<close>: the program, its arguments and the options the source passes.
\<close>

record launch =
  command :: string
  arguments :: "string list"
  shell :: bool
  timeout_ms :: "nat option"
  in_dir :: "string option"

text \<open>
  The environment of the process: its working directory, the directory of the script,
  \<open>path.resolve\<close> and \<open>path.join\<close>, the directory that holds a path, the UTF-8 decoder
  and encoder, the text that a missing value prints in a template literal (\<open>null\<close> or
  \<open>undefined\<close>, as the platform leaves the streams of a child that did not start), and
  what a child process returns and does to the file system. None of them is part of the
  repository; a property holds for all of them.
\<close>

record env =
  cwd :: string
  dirname :: string
  path_resolve :: "string \<Rightarrow> string \<Rightarrow> string"
  path_join :: "string \<Rightarrow> string \<Rightarrow> string"
  parent_of :: "string \<Rightarrow> string"
  utf8_decode :: "bytes \<Rightarrow> string"
  utf8_encode :: "string \<Rightarrow> bytes"
  missing_text :: string
  spawnSync :: "launch \<Rightarrow> filesystem \<Rightarrow> spawn_result \<times> filesystem"

text \<open>
  \<open>fs.readFileSync(p, 'utf-8')\<close>: the bytes of the file, decoded. An operation returns
  its result or the error it throws.
\<close>

definition readFileSync :: "env \<Rightarrow> filesystem \<Rightarrow> string \<Rightarrow> js_error + string" where
  "readFileSync e fs p =
     (if p = [] then Inl (ENOENT ''open'' p)
      else case fs p of
        None \<Rightarrow> Inl (ENOENT ''open'' p)
      | Some Directory \<Rightarrow> Inl (EISDIR ''read'' None)
      | Some (File b) \<Rightarrow> Inr (utf8_decode e b)
      | Some (ReadOnlyFile b) \<Rightarrow> Inr (utf8_decode e b))"

text \<open>
  A file that does not exist is created by a write, in the directory that holds its
  path: without that directory the write fails.
\<close>

definition create :: "env \<Rightarrow> filesystem \<Rightarrow> string \<Rightarrow> bytes \<Rightarrow> js_error + filesystem" where
  "create e fs p b =
     (case fs (parent_of e p) of
        Some Directory \<Rightarrow> Inr (fs(p \<mapsto> File b))
      | None \<Rightarrow> Inl (ENOENT ''open'' p)
      | Some _ \<Rightarrow> Inl (ENOTDIR ''open'' p))"

text \<open>
  \<open>fs.writeFileSync(p, data, 'utf-8')\<close> and \<open>fs.appendFileSync(p, data, 'utf-8')\<close> throw
  a \<open>TypeError\<close> unless the data is a string; the string is encoded, and the bytes
  replace those of the file or are added at their end.
\<close>

definition writeFileSync :: "env \<Rightarrow> filesystem \<Rightarrow> string \<Rightarrow> jsval \<Rightarrow> js_error + filesystem" where
  "writeFileSync e fs p data =
     (case data of
        JStr t \<Rightarrow>
          (if p = [] then Inl (ENOENT ''open'' p)
           else case fs p of
             Some Directory \<Rightarrow> Inl (EISDIR ''open'' (Some p))
           | Some (ReadOnlyFile b) \<Rightarrow> Inl (EACCES ''open'' p)
           | Some (File b) \<Rightarrow> Inr (fs(p \<mapsto> File (utf8_encode e t)))
           | None \<Rightarrow> create e fs p (utf8_encode e t))
      | _ \<Rightarrow> Inl (TypeError ''The data argument must be of type string''))"

definition appendFileSync :: "env \<Rightarrow> filesystem \<Rightarrow> string \<Rightarrow> jsval \<Rightarrow> js_error + filesystem" where
  "appendFileSync e fs p data =
     (case data of
        JStr t \<Rightarrow>
          (if p = [] then Inl (ENOENT ''open'' p)
           else case fs p of
             Some Directory \<Rightarrow> Inl (EISDIR ''open'' (Some p))
           | Some (ReadOnlyFile b) \<Rightarrow> Inl (EACCES ''open'' p)
           | Some (File b) \<Rightarrow> Inr (fs(p \<mapsto> File (b @ utf8_encode e t)))
           | None \<Rightarrow> create e fs p (utf8_encode e t))
      | _ \<Rightarrow> Inl (TypeError ''The data argument must be of type string''))"

definition existsSync :: "filesystem \<Rightarrow> string \<Rightarrow> bool" where
  "existsSync fs p = (fs p \<noteq> None)"

definition unlinkSync :: "filesystem \<Rightarrow> string \<Rightarrow> js_error + filesystem" where
  "unlinkSync fs p =
     (case fs p of
        None \<Rightarrow> Inl (ENOENT ''unlink'' p)
      | Some Directory \<Rightarrow> Inl (EISDIR ''unlink'' (Some p))
      | Some _ \<Rightarrow> Inr (fs(p := None)))"

text \<open>
  \<open>a || b\<close> on text that may be missing: the first operand unless it is missing or
  empty. \<open>or_str\<close> is the case where the second operand is a string.
\<close>

definition nonempty :: "string option \<Rightarrow> bool" where
  "nonempty t = (case t of None \<Rightarrow> False | Some s \<Rightarrow> s \<noteq> [])"

definition or_else :: "string option \<Rightarrow> string option \<Rightarrow> string option" where
  "or_else a b = (if nonempty a then a else b)"

fun or_str :: "string option \<Rightarrow> string \<Rightarrow> string" where
  "or_str None d = d"
| "or_str (Some s) d = (if s = [] then d else s)"

section \<open>The native tool handler\<close>

text \<open>
  \<open>handleNativeTool\<close> of \<open>src/unnamed/part_001\<close>, lines 71 to 107. Its first statement
  is \<open>let fullPath = args.path ? path.resolve(process.cwd(), args.path) : ""\<close>, and
  \<open>path.resolve\<close> throws a \<open>TypeError\<close> unless every argument is a string.
\<close>

definition resolve_arg :: "env \<Rightarrow> jsval \<Rightarrow> js_error + string" where
  "resolve_arg e v =
     (case v of
        JStr p \<Rightarrow> Inr (path_resolve e (cwd e) p)
      | _ \<Rightarrow> Inl (TypeError ''The paths[1] argument must be of type string''))"

text \<open>The branches of the \<open>try\<close> block, one per tool name.\<close>

type_synonym tool_run = "jsval completion \<times> filesystem"

definition read_file_tool :: "env \<Rightarrow> string \<Rightarrow> filesystem \<Rightarrow> tool_run" where
  "read_file_tool e fullPath fs =
     (case readFileSync e fs fullPath of
        Inl err \<Rightarrow> (Throw err, fs)
      | Inr data \<Rightarrow> (Normal (JStr data), fs))"

definition search_and_replace_tool :: "env \<Rightarrow> jsargs \<Rightarrow> string \<Rightarrow> filesystem \<Rightarrow> tool_run" where
  "search_and_replace_tool e args fullPath fs =
     (case readFileSync e fs fullPath of
        Inl err \<Rightarrow> (Throw err, fs)
      | Inr data \<Rightarrow>
          if \<not> js_includes data (ToString (field args ''search''))
          then (Normal (JStr (''Error: String '' @ dquote @ ToString (field args ''search'')
                              @ dquote @ '' not found.'')), fs)
          else
            let newData = join_val (field args ''replace'')
                                   (split_val (field args ''search'') data)
            in (case writeFileSync e fs fullPath (JStr newData) of
                  Inl err \<Rightarrow> (Throw err, fs)
                | Inr fs' \<Rightarrow>
                    (Normal (JStr (''Successfully replaced text in ''
                                   @ ToString (field args ''path''))), fs')))"

definition write_file_tool :: "env \<Rightarrow> jsargs \<Rightarrow> string \<Rightarrow> filesystem \<Rightarrow> tool_run" where
  "write_file_tool e args fullPath fs =
     (if truthy (field args ''append'') then
        (case appendFileSync e fs fullPath (field args ''text'') of
           Inl err \<Rightarrow> (Throw err, fs)
         | Inr fs' \<Rightarrow>
             (Normal (JStr (''Successfully appended to '' @ ToString (field args ''path''))), fs'))
      else
        (case writeFileSync e fs fullPath (field args ''text'') of
           Inl err \<Rightarrow> (Throw err, fs)
         | Inr fs' \<Rightarrow>
             (Normal (JStr (''Successfully wrote to '' @ ToString (field args ''path''))), fs')))"

definition run_terminal_command_tool :: "env \<Rightarrow> jsargs \<Rightarrow> filesystem \<Rightarrow> tool_run" where
  "run_terminal_command_tool e args fs =
     (case field args ''command'' of
        JStr cmd \<Rightarrow>
          (if cmd = [] then (Throw (TypeError ''The argument file cannot be empty''), fs)
           else
             let (result, fs') =
                   spawnSync e \<lparr>command = cmd, arguments = [], shell = True,
                                timeout_ms = Some 30000, in_dir = Some (cwd e)\<rparr> fs
             in (Normal (JStr (or_str (stdout result)
                                 (or_str (stderr result) ''Command executed (no output).''))),
                 fs'))
      | _ \<Rightarrow> (Throw (TypeError ''The file argument must be of type string''), fs))"

definition tool_body :: "env \<Rightarrow> string \<Rightarrow> jsargs \<Rightarrow> string \<Rightarrow> filesystem \<Rightarrow> tool_run" where
  "tool_body e name args fullPath fs =
     (if name = ''read_file'' then read_file_tool e fullPath fs
      else if name = ''search_and_replace'' then search_and_replace_tool e args fullPath fs
      else if name = ''write_file'' then write_file_tool e args fullPath fs
      else if name = ''run_terminal_command'' then run_terminal_command_tool e args fs
      else (Normal JUndefined, fs))"

text \<open>\<open>try { ... } catch (e) { return `Error executing ${name}: ${e.message}`; }\<close>\<close>

definition catch_all :: "string \<Rightarrow> tool_run \<Rightarrow> tool_run" where
  "catch_all name r =
     (case r of
        (Throw err, fs') \<Rightarrow> (Normal (JStr (''Error executing '' @ name @ '': '' @ message err)), fs')
      | (Normal v, fs') \<Rightarrow> (Normal v, fs'))"

text \<open>
  \<open>handleNativeTool(name, args)\<close> of the tool-calling agent: the path is resolved
  before the \<open>try\<close> block is entered.
\<close>

definition handleNativeTool :: "env \<Rightarrow> string \<Rightarrow> jsargs \<Rightarrow> filesystem \<Rightarrow> tool_run" where
  "handleNativeTool e name args fs =
     (case (if truthy (field args ''path'') then resolve_arg e (field args ''path'') else Inr []) of
        Inl err \<Rightarrow> (Throw err, fs)
      | Inr fullPath \<Rightarrow> catch_all name (tool_body e name args fullPath fs))"

text \<open>
  The handler of the code-generating agent (\<open>src/unnamed/part_003\<close>, lines 418 to 450)
  differs in two places: it also answers to \<open>find_and_replace\<close>, and \<open>write_file\<close> is the
  single statement
  \<open>fs.writeFileSync(fullPath, args.text || args.data || args.newData, 'utf-8')\<close>.
\<close>

definition js_or :: "jsval \<Rightarrow> jsval \<Rightarrow> jsval" where
  "js_or a b = (if truthy a then a else b)"

definition write_file_overwrite :: "env \<Rightarrow> jsargs \<Rightarrow> string \<Rightarrow> filesystem \<Rightarrow> tool_run" where
  "write_file_overwrite e args fullPath fs =
     (case writeFileSync e fs fullPath
             (js_or (js_or (field args ''text'') (field args ''data'')) (field args ''newData'')) of
        Inl err \<Rightarrow> (Throw err, fs)
      | Inr fs' \<Rightarrow>
          (Normal (JStr (''Successfully wrote to '' @ ToString (field args ''path''))), fs'))"

definition tool_body_gen :: "env \<Rightarrow> string \<Rightarrow> jsargs \<Rightarrow> string \<Rightarrow> filesystem \<Rightarrow> tool_run" where
  "tool_body_gen e name args fullPath fs =
     (if name = ''read_file'' then read_file_tool e fullPath fs
      else if name = ''search_and_replace'' \<or> name = ''find_and_replace''
           then search_and_replace_tool e args fullPath fs
      else if name = ''write_file'' then write_file_overwrite e args fullPath fs
      else if name = ''run_terminal_command'' then run_terminal_command_tool e args fs
      else (Normal JUndefined, fs))"

definition handleNativeTool_gen :: "env \<Rightarrow> string \<Rightarrow> jsargs \<Rightarrow> filesystem \<Rightarrow> tool_run" where
  "handleNativeTool_gen e name args fs =
     (case (if truthy (field args ''path'') then resolve_arg e (field args ''path'') else Inr []) of
        Inl err \<Rightarrow> (Throw err, fs)
      | Inr fullPath \<Rightarrow> catch_all name (tool_body_gen e name args fullPath fs))"

text \<open>
  \<open>handleNativeTool\<close> of the first file of \<open>src/unnamed/part_002\<close>, lines 72 to 97. The
  path is resolved by \<open>path.resolve(args.path)\<close>, which resolves against the working
  directory; \<open>write_file\<close> (lines 85 to 89) is the same single \<open>writeFileSync\<close> under the
  comment \<open>Logic fix: Handle both overwrite or append safely\<close>; the command runs without
  a time-out.
\<close>

definition resolve_arg_002 :: "env \<Rightarrow> jsval \<Rightarrow> js_error + string" where
  "resolve_arg_002 e v =
     (case v of
        JStr p \<Rightarrow> Inr (path_resolve e (cwd e) p)
      | _ \<Rightarrow> Inl (TypeError ''The paths[0] argument must be of type string''))"

definition run_terminal_command_002 :: "env \<Rightarrow> jsargs \<Rightarrow> filesystem \<Rightarrow> tool_run" where
  "run_terminal_command_002 e args fs =
     (case field args ''command'' of
        JStr cmd \<Rightarrow>
          (if cmd = [] then (Throw (TypeError ''The argument file cannot be empty''), fs)
           else
             let (result, fs') =
                   spawnSync e \<lparr>command = cmd, arguments = [], shell = True,
                                timeout_ms = None, in_dir = None\<rparr> fs
             in (Normal (JStr (or_str (stdout result)
                                 (or_str (stderr result) ''Command executed with no output.''))),
                 fs'))
      | _ \<Rightarrow> (Throw (TypeError ''The file argument must be of type string''), fs))"

definition tool_body_002 :: "env \<Rightarrow> string \<Rightarrow> jsargs \<Rightarrow> string \<Rightarrow> filesystem \<Rightarrow> tool_run" where
  "tool_body_002 e name args fullPath fs =
     (if name = ''read_file'' then read_file_tool e fullPath fs
      else if name = ''search_and_replace'' \<or> name = ''find_and_replace''
           then search_and_replace_tool e args fullPath fs
      else if name = ''write_file'' then write_file_overwrite e args fullPath fs
      else if name = ''run_terminal_command'' then run_terminal_command_002 e args fs
      else (Normal JUndefined, fs))"

definition handleNativeTool_002 :: "env \<Rightarrow> string \<Rightarrow> jsargs \<Rightarrow> filesystem \<Rightarrow> tool_run" where
  "handleNativeTool_002 e name args fs =
     (case (if truthy (field args ''path'') then resolve_arg_002 e (field args ''path'') else Inr []) of
        Inl err \<Rightarrow> (Throw err, fs)
      | Inr fullPath \<Rightarrow> catch_all name (tool_body_002 e name args fullPath fs))"

definition NATIVE_TOOL_NAMES :: "string list" where
  "NATIVE_TOOL_NAMES = [''read_file'', ''write_file'', ''search_and_replace'', ''run_terminal_command'']"

section \<open>The execution sandbox\<close>

text \<open>
  \<open>executeSegment\<close> of \<open>src/unnamed/part_003\<close>, lines 506 to 525. It returns
  \<open>{error, log}\<close>; \<open>log\<close> is \<open>result.stderr || result.stdout\<close>, which is missing when
  the child could not be started.
\<close>

record exec_result =
  exec_error :: bool
  exec_log :: "string option"

text \<open>\<open>result.error || result.status !== 0\<close>: the spawn failed, or the exit status is not 0.\<close>

definition failed :: "spawn_result \<Rightarrow> bool" where
  "failed result = (if error result = None then status result \<noteq> Some 0 else True)"

definition tempFile :: "env \<Rightarrow> nat \<Rightarrow> string" where
  "tempFile e now = path_join e (cwd e) (''temp_exec_'' @ show_nat now @ ''.js'')"

definition node_launch :: "env \<Rightarrow> string \<Rightarrow> launch" where
  "node_launch e file = \<lparr>command = ''node'', arguments = [file], shell = False,
                         timeout_ms = Some 60000, in_dir = Some (cwd e)\<rparr>"

text \<open>
  \<open>executeSegment(segment)\<close>, with \<open>now\<close> the value of \<open>Date.now()\<close>. The third component
  lists the child processes that were started.
\<close>

definition executeSegment ::
  "env \<Rightarrow> nat \<Rightarrow> string \<Rightarrow> filesystem \<Rightarrow> exec_result completion \<times> filesystem \<times> launch list" where
  "executeSegment e now segment fs =
     (let tmp = tempFile e now in
      case writeFileSync e fs tmp (JStr segment) of
        Inl err \<Rightarrow> (Throw err, fs, [])
      | Inr fs1 \<Rightarrow>
          let (result, fs2) = spawnSync e (node_launch e tmp) fs1 in
          (case (if existsSync fs2 tmp then unlinkSync fs2 tmp else Inr fs2) of
             Inl err \<Rightarrow> (Throw err, fs2, [node_launch e tmp])
           | Inr fs3 \<Rightarrow>
               if error result = Some ''ETIMEDOUT''
               then (Normal \<lparr>exec_error = True, exec_log = Some ''Execution timed out (60s limit).''\<rparr>,
                     fs3, [node_launch e tmp])
               else (Normal \<lparr>exec_error = failed result,
                              exec_log = or_else (stderr result) (stdout result)\<rparr>,
                     fs3, [node_launch e tmp])))"

text \<open>
  \<open>executeSegment\<close> of the first version of the agent (\<open>src/index.js\<close>, lines 50 to
  60) writes to a fixed file beside the script, starts node without a time-out and
  unlinks without looking.
\<close>

definition executeSegment_basic ::
  "env \<Rightarrow> string \<Rightarrow> filesystem \<Rightarrow> exec_result completion \<times> filesystem \<times> launch list" where
  "executeSegment_basic e segment fs =
     (let tmp = path_join e (dirname e) ''temp.js'';
          l = \<lparr>command = ''node'', arguments = [tmp], shell = False,
               timeout_ms = None, in_dir = None\<rparr> in
      case writeFileSync e fs tmp (JStr segment) of
        Inl err \<Rightarrow> (Throw err, fs, [])
      | Inr fs1 \<Rightarrow>
          let (result, fs2) = spawnSync e l fs1 in
          (case unlinkSync fs2 tmp of
             Inl err \<Rightarrow> (Throw err, fs2, [l])
           | Inr fs3 \<Rightarrow>
               if failed result
               then (Normal \<lparr>exec_error = True, exec_log = or_else (stderr result) (stdout result)\<rparr>,
                     fs3, [l])
               else (Normal \<lparr>exec_error = False, exec_log = stdout result\<rparr>, fs3, [l])))"

section \<open>Text helpers of the control loop\<close>

definition nl :: string where
  "nl = [CHR 0x0A]"

text \<open>The white space and line terminators that \<open>trim\<close> removes, among 8-bit characters.\<close>

definition js_whitespace :: "char \<Rightarrow> bool" where
  "js_whitespace c = (of_char c \<in> {9, 10, 11, 12, 13, 32, 160 :: nat})"

definition trim :: "string \<Rightarrow> string" where
  "trim s = rev (dropWhile js_whitespace (rev (dropWhile js_whitespace s)))"

text \<open>
  Lower case: the letters A to Z by table, the upper-case letters of the Latin-1 range
  (0xC0 to 0xDE without the multiplication sign) by their code.
\<close>

definition lower_char :: "char \<Rightarrow> char" where
  "lower_char c =
     (case map_of (zip ''ABCDEFGHIJKLMNOPQRSTUVWXYZ'' ''abcdefghijklmnopqrstuvwxyz'') c of
        Some l \<Rightarrow> l
      | None \<Rightarrow>
          (let n = (of_char c :: nat)
           in if 192 \<le> n \<and> n \<le> 222 \<and> n \<noteq> 215 then char_of (n + 32) else c))"

definition toLowerCase :: "string \<Rightarrow> string" where
  "toLowerCase s = map lower_char s"

text \<open>\<open>s.slice(-n)\<close>: the last \<open>n\<close> characters; \<open>-0\<close> is \<open>0\<close>, so \<open>n = 0\<close> keeps all of \<open>s\<close>.\<close>

definition slice_last :: "nat \<Rightarrow> string \<Rightarrow> string" where
  "slice_last n s = (if n = 0 then s else drop (length s - n) s)"

text \<open>\<open>Math.round((Number(contextLength) / 6) / 2)\<close>: halves round up.\<close>

definition sliceLen :: "nat \<Rightarrow> nat" where
  "sliceLen contextLength = (contextLength + 6) div 12"

text \<open>A value that may be missing, inside a template literal.\<close>

definition template :: "env \<Rightarrow> string option \<Rightarrow> string" where
  "template e t = (case t of None \<Rightarrow> missing_text e | Some s \<Rightarrow> s)"

section \<open>The model backend and the tool providers\<close>

datatype role = System | User | Assistant | ToolRole

record tool_call =
  call_name :: string
  call_args :: jsargs

record chat_message =
  msg_role :: role
  msg_content :: string
  msg_calls :: "tool_call list"
  msg_name :: "string option"

definition msg :: "role \<Rightarrow> string \<Rightarrow> chat_message" where
  "msg r c = \<lparr>msg_role = r, msg_content = c, msg_calls = [], msg_name = None\<rparr>"

text \<open>A request to \<open>ollama.chat\<close>, and what comes back: a message, or a failure that is thrown.\<close>

record request =
  req_messages :: "chat_message list"
  req_tools :: bool
  req_num_ctx :: "nat option"

datatype reply = Reply string "tool_call list" | Failed js_error

text \<open>A connected tool provider: the names it advertised and what \<open>callTool\<close> returns.\<close>

record chunk =
  chunk_text :: "string option"
  chunk_json :: string

record client =
  toolNames :: "string list"
  callTool :: "string \<Rightarrow> jsargs \<Rightarrow> js_error + chunk list"

definition flatten :: "chunk list \<Rightarrow> string" where
  "flatten cs = js_join nl (map (\<lambda>c. or_str (chunk_text c) (chunk_json c)) cs)"

section \<open>The control loop of the code-generating agent\<close>

text \<open>
  \<open>main\<close> of \<open>src/unnamed/part_003\<close> (second file): the system prompts of lines 543 to
  546, the router of lines 556 to 578 and the loop of lines 580 to 668.
\<close>

definition systemPromptRouter :: string where
  "systemPromptRouter =
    ''You are a router. Determine if the user request is a '' @ dquote @ ''CHAT'' @ dquote @ '' (a question, greeting, or explanation request, etc) or an '' @ dquote @ ''ACTION'' @ dquote @ '' (such as requires writing code, running commands, or multi-step execution). ''
    @ ''Respond ONLY with the word '' @ dquote @ ''CHAT'' @ dquote @ '' or '' @ dquote @ ''ACTION'' @ dquote @ ''.''"

definition systemPromptGenerate :: string where
  "systemPromptGenerate =
    ''You are a code generator. Output only the raw next Node.js code segment without ''
    @ ''any codeblocks, markdown, formatting, or wrappers. For shell commands or other ''
    @ ''languages (like Python), use Node.js child_process to execute them directly ''
    @ ''without creating files or running code in shell. That is to say, create or ''
    @ ''execute code files unless absolutely needed for the project - such as if the ''
    @ ''user asks you to make or modify some code. If the project is complete, output ''
    @ ''only '' @ dquote @ ''PROJECT_DONE'' @ dquote @ ''. Do not include any other text, explanations, thoughts, speech, codeblocks, or ''
    @ ''markdown. Do not create anything that may make a feedback loop stuck, such as a ''
    @ ''server, launching GUI apps, or a while true loop without a proper breaking ''
    @ ''functionality. If you test something to prevent bugs, please execute it for 60 ''
    @ ''seconds, quit if still open, and read error output - fixing bugs according to ''
    @ ''said error output.''"

definition systemPromptCheck :: string where
  "systemPromptCheck =
    ''You are a completion checker. Respond only with '' @ dquote @ ''yes'' @ dquote @ '' or '' @ dquote @ ''no'' @ dquote @ '' to whether the project is complete. No other text, explanations, thoughts, ''
    @ ''speech, codeblocks, or markdown.''"

definition projectStateSummarySystem :: string where
  "projectStateSummarySystem =
    ''You are a project progress summarization bot. You create summaries for projects ''
    @ ''- showing what you've learned, the errors, and what needs to be done. Use plain ''
    @ ''text. Output ONLY the new summary, NOTHNG ELSE.''"

text \<open>The task router: the reply is an action when it contains the literal \<open>ACTION\<close>.\<close>

definition isAction :: "string \<Rightarrow> bool" where
  "isAction response = js_includes response ''ACTION''"

datatype classification = CHAT | ACTION

definition route :: "string \<Rightarrow> classification" where
  "route response = (if isAction response then ACTION else CHAT)"

text \<open>
  One tool call of the inner loop: a native tool, else the first provider that
  advertised the name, else nothing; the tool message carries
  \<open>toolResult || "Tool error"\<close>.
\<close>

definition call_tool :: "env \<Rightarrow> client list \<Rightarrow> tool_call \<Rightarrow> filesystem \<Rightarrow> tool_run" where
  "call_tool e clients call fs =
     (if call_name call \<in> set NATIVE_TOOL_NAMES
      then handleNativeTool_gen e (call_name call) (call_args call) fs
      else case find (\<lambda>c. call_name call \<in> set (toolNames c)) clients of
             None \<Rightarrow> (Normal JUndefined, fs)
           | Some target \<Rightarrow>
               (case callTool target (call_name call) (call_args call) of
                  Inl err \<Rightarrow> (Throw err, fs)
                | Inr res \<Rightarrow> (Normal (JStr (flatten res)), fs)))"

definition tool_message :: "tool_call \<Rightarrow> jsval \<Rightarrow> chat_message" where
  "tool_message call toolResult =
     \<lparr>msg_role = ToolRole,
      msg_content = (if truthy toolResult then ToString toolResult else ''Tool error''),
      msg_calls = [], msg_name = Some (call_name call)\<rparr>"

fun dispatch_all ::
  "env \<Rightarrow> client list \<Rightarrow> tool_call list \<Rightarrow> filesystem \<Rightarrow> chat_message list completion \<times> filesystem" where
  "dispatch_all e clients [] fs = (Normal [], fs)"
| "dispatch_all e clients (call # calls) fs =
     (case call_tool e clients call fs of
        (Throw err, fs') \<Rightarrow> (Throw err, fs')
      | (Normal toolResult, fs') \<Rightarrow>
          (case dispatch_all e clients calls fs' of
             (Throw err, fs'') \<Rightarrow> (Throw err, fs'')
           | (Normal ms, fs'') \<Rightarrow> (Normal (tool_message call toolResult # ms), fs'')))"

text \<open>
  The inner loop, over the replies the backend gives in this iteration: a reply with tool
  calls is dispatched and the backend asked again; the first reply without tool calls is
  the segment. When the replies run out, the loop is still waiting for the backend.
\<close>

datatype gen_outcome = Final string | GenThrow js_error | Awaiting

definition gen_request :: "nat \<Rightarrow> chat_message list \<Rightarrow> request" where
  "gen_request contextLength messages =
     \<lparr>req_messages = messages, req_tools = True, req_num_ctx = Some contextLength\<rparr>"

fun generate ::
  "env \<Rightarrow> client list \<Rightarrow> nat \<Rightarrow> chat_message list \<Rightarrow> reply list \<Rightarrow> filesystem
   \<Rightarrow> gen_outcome \<times> filesystem \<times> request list" where
  "generate e clients ctx messages [] fs = (Awaiting, fs, [gen_request ctx messages])"
| "generate e clients ctx messages (Failed err # rs) fs =
     (GenThrow err, fs, [gen_request ctx messages])"
| "generate e clients ctx messages (Reply c calls # rs) fs =
     (if calls \<noteq> [] then
        (case dispatch_all e clients calls fs of
           (Throw err, fs') \<Rightarrow> (GenThrow err, fs', [gen_request ctx messages])
         | (Normal ms, fs') \<Rightarrow>
             (case generate e clients ctx
                     (messages @ [\<lparr>msg_role = Assistant, msg_content = c, msg_calls = calls,
                                   msg_name = None\<rparr>] @ ms) rs fs' of
                (out, fs'', reqs) \<Rightarrow> (out, fs'', gen_request ctx messages # reqs)))
      else (Final (trim c), fs, [gen_request ctx messages]))"

definition fullPrompt :: "string \<Rightarrow> string \<Rightarrow> string \<Rightarrow> string" where
  "fullPrompt currentTask summary err =
     ''Task: '' @ currentTask @ nl @ ''Summary: '' @ summary @ nl
     @ (if err \<noteq> [] then ''FIX ERROR: '' @ err else ''Generate next Node.js segment.'')"

definition generation_turn ::
  "env \<Rightarrow> client list \<Rightarrow> nat \<Rightarrow> string \<Rightarrow> string \<Rightarrow> string \<Rightarrow> reply list \<Rightarrow> filesystem
   \<Rightarrow> gen_outcome \<times> filesystem \<times> request list" where
  "generation_turn e clients ctx currentTask summary err replies fs =
     generate e clients ctx
       [msg System systemPromptGenerate, msg User (fullPrompt currentTask summary err)] replies fs"

text \<open>
  The variables of the loop. \<open>errorLog\<close> takes the log of a failed execution, which is
  missing when the child could not be started.
\<close>

record loop_state =
  progressLog :: string
  errorLog :: "string option"
  projectStateSummary :: string

text \<open>What the outside world contributes to one outer iteration.\<close>

record iter_input =
  in_summary :: reply
  in_generate :: "reply list"
  in_now :: nat
  in_check :: reply

datatype exit_reason = SentinelSeen | CheckSaidYes

datatype step_outcome = Continue | Exit exit_reason | Crash js_error | Waiting

record step =
  outcome :: step_outcome
  state :: loop_state
  files :: filesystem
  sent :: "request list"

definition summarizePrompt :: "nat \<Rightarrow> string \<Rightarrow> string \<Rightarrow> string \<Rightarrow> string" where
  "summarizePrompt contextLength progress err summary =
     ''History: '' @ slice_last (sliceLen contextLength) progress @ nl
     @ ''Errors: '' @ slice_last (sliceLen contextLength) err @ nl
     @ ''Summary: '' @ summary @ nl @ ''Update summary.''"

definition summary_request :: "nat \<Rightarrow> string \<Rightarrow> string \<Rightarrow> string \<Rightarrow> request" where
  "summary_request contextLength progress err summary =
     \<lparr>req_messages = [msg System projectStateSummarySystem,
                       msg User (summarizePrompt contextLength progress err summary)],
      req_tools = False, req_num_ctx = Some contextLength\<rparr>"

definition check_request :: "string \<Rightarrow> string \<Rightarrow> request" where
  "check_request currentTask progress =
     \<lparr>req_messages = [msg System systemPromptCheck,
                       msg User (''Task: '' @ currentTask @ nl @ ''Log: '' @ progress @ nl @ ''Done?'')],
      req_tools = False, req_num_ctx = None\<rparr>"

text \<open>The steps after the segment is known: the sentinel test, execution, the two branches.\<close>

definition execute_and_check ::
  "env \<Rightarrow> string \<Rightarrow> loop_state \<Rightarrow> iter_input \<Rightarrow> string \<Rightarrow> filesystem \<Rightarrow> request list \<Rightarrow> step" where
  "execute_and_check e currentTask st inp segment fs reqs =
     (if js_includes segment ''PROJECT_DONE''
      then \<lparr>outcome = Exit SentinelSeen, state = st, files = fs, sent = reqs\<rparr>
      else case executeSegment e (in_now inp) segment fs of
        (Throw err, fs', _) \<Rightarrow> \<lparr>outcome = Crash err, state = st, files = fs', sent = reqs\<rparr>
      | (Normal execResult, fs', _) \<Rightarrow>
          if exec_error execResult
          then \<lparr>outcome = Continue, state = st\<lparr>errorLog := exec_log execResult\<rparr>,
                files = fs', sent = reqs\<rparr>
          else
            let st' = st\<lparr>progressLog := progressLog st @ nl @ ''Code: '' @ segment @ nl
                                          @ ''Output: '' @ template e (exec_log execResult),
                         errorLog := Some []\<rparr>;
                reqs' = reqs @ [check_request currentTask (progressLog st')]
            in (case in_check inp of
                  Failed err \<Rightarrow> \<lparr>outcome = Crash err, state = st', files = fs', sent = reqs'\<rparr>
                | Reply c calls \<Rightarrow>
                    if js_includes (toLowerCase c) ''yes''
                    then \<lparr>outcome = Exit CheckSaidYes, state = st', files = fs', sent = reqs'\<rparr>
                    else \<lparr>outcome = Continue, state = st', files = fs', sent = reqs'\<rparr>))"

text \<open>One pass of the inner \<open>while (true)\<close>: summarize, generate, execute, check.\<close>

definition outer_iteration ::
  "env \<Rightarrow> client list \<Rightarrow> nat \<Rightarrow> string \<Rightarrow> loop_state \<Rightarrow> iter_input \<Rightarrow> filesystem \<Rightarrow> step" where
  "outer_iteration e clients contextLength currentTask st inp fs =
     (case errorLog st of
        None \<Rightarrow> \<lparr>outcome = Crash (TypeError (''Cannot read properties of '' @ missing_text e
                                            @ '' (reading '' @ squote ''slice'' @ '')'')),
                 state = st, files = fs, sent = []\<rparr>
      | Some err \<Rightarrow>
          let req = summary_request contextLength (progressLog st) err (projectStateSummary st)
          in (case in_summary inp of
                Failed ex \<Rightarrow> \<lparr>outcome = Crash ex, state = st, files = fs, sent = [req]\<rparr>
              | Reply c calls \<Rightarrow>
                  let st1 = st\<lparr>projectStateSummary := trim c\<rparr>
                  in (case generation_turn e clients contextLength currentTask (trim c) err
                            (in_generate inp) fs of
                        (Awaiting, fs', reqs) \<Rightarrow>
                          \<lparr>outcome = Waiting, state = st1, files = fs', sent = req # reqs\<rparr>
                      | (GenThrow ex, fs', reqs) \<Rightarrow>
                          \<lparr>outcome = Crash ex, state = st1, files = fs', sent = req # reqs\<rparr>
                      | (Final segment, fs', reqs) \<Rightarrow>
                          execute_and_check e currentTask st1 inp segment fs' (req # reqs))))"

text \<open>
  The loop over the iterations for which the world's contribution is given. It leaves by
  an exit, by a thrown exception, by waiting for the backend for ever, or it is still
  running when the given iterations are used up.
\<close>

datatype run_result =
    Exited exit_reason loop_state filesystem
  | Crashed js_error loop_state filesystem
  | Blocked loop_state filesystem
  | Running loop_state filesystem

fun run_loop ::
  "env \<Rightarrow> client list \<Rightarrow> nat \<Rightarrow> string \<Rightarrow> loop_state \<Rightarrow> filesystem \<Rightarrow> iter_input list \<Rightarrow> run_result" where
  "run_loop e clients ctx task st fs [] = Running st fs"
| "run_loop e clients ctx task st fs (inp # inps) =
     (let r = outer_iteration e clients ctx task st inp fs in
      case outcome r of
        Continue \<Rightarrow> run_loop e clients ctx task (state r) (files r) inps
      | Exit reason \<Rightarrow> Exited reason (state r) (files r)
      | Crash err \<Rightarrow> Crashed err (state r) (files r)
      | Waiting \<Rightarrow> Blocked (state r) (files r))"

text \<open>
  One task (lines 547 to 671): the router's reply decides between a chat reply, printed
  without any side effect, and the control loop; \<open>let errorLog = \<close> the empty string
  starts the loop of each task, while the progress log and the summary are kept.
\<close>

record task_input =
  t_route :: reply
  t_chat :: reply
  t_iterations :: "iter_input list"

datatype task_result = Chatted string | Looped run_result | TaskCrashed js_error

definition process_task ::
  "env \<Rightarrow> client list \<Rightarrow> nat \<Rightarrow> string \<Rightarrow> loop_state \<Rightarrow> task_input \<Rightarrow> filesystem \<Rightarrow> task_result" where
  "process_task e clients ctx currentTask st inp fs =
     (case t_route inp of
        Failed ex \<Rightarrow> TaskCrashed ex
      | Reply c calls \<Rightarrow>
          if \<not> isAction c
          then (case t_chat inp of
                  Failed ex \<Rightarrow> TaskCrashed ex
                | Reply a calls' \<Rightarrow> Chatted a)
          else Looped (run_loop e clients ctx currentTask (st\<lparr>errorLog := Some []\<rparr>) fs
                         (t_iterations inp)))"

section \<open>The control loop of the first agent\<close>

text \<open>
  \<open>main\<close> of \<open>src/index.js\<close>, lines 63 to 125, has no router, summary or tools: an
  iteration asks for a segment, runs it and, after a success, asks whether the project
  is complete. Both exits compare the whole trimmed reply, and \<open>errorLog\<close> is reset
  after the check. The summary field of the state is not used.
\<close>

definition basic_systemPromptGenerate :: string where
  "basic_systemPromptGenerate =
    ''You are a code generator. Output only the raw next Node.js code segment without ''
    @ ''any codeblocks, markdown, formatting, or wrappers. For shell commands or other ''
    @ ''languages (like Python), use Node.js child_process to execute them directly ''
    @ ''without creating files or running code in shell. If the project is complete, ''
    @ ''output only '' @ dquote @ ''PROJECT_DONE'' @ dquote @ ''. Do not include any other text, explanations, thoughts, speech, codeblocks, or ''
    @ ''markdown.''"

definition basic_systemPromptCheck :: string where
  "basic_systemPromptCheck =
    ''You are a completion checker. Respond only with '' @ dquote @ ''yes'' @ dquote @ '' or '' @ dquote @ ''no'' @ dquote @ '' to whether the project is complete. No other text, explanations, thoughts, ''
    @ ''speech, codeblocks, or markdown.''"

record basic_input =
  b_generate :: reply
  b_check :: reply

definition basic_request :: "nat \<Rightarrow> string \<Rightarrow> string \<Rightarrow> request" where
  "basic_request contextLength sys user =
     \<lparr>req_messages = [msg System sys, msg User user], req_tools = False,
      req_num_ctx = Some contextLength\<rparr>"

definition basic_fullPrompt :: "env \<Rightarrow> string \<Rightarrow> string \<Rightarrow> string option \<Rightarrow> string" where
  "basic_fullPrompt e mainPrompt progress err =
     mainPrompt @ nl @ nl @ ''Progress Log: '' @ progress @ nl @ nl
     @ ''Error Log (if any): '' @ template e err @ nl @ nl
     @ ''Generate the next code segment or command. If incomplete, continue. If done, say ''
     @ dquote @ ''PROJECT_DONE'' @ dquote @ ''.''"

definition basic_checkPrompt :: "env \<Rightarrow> string \<Rightarrow> string \<Rightarrow> string option \<Rightarrow> string" where
  "basic_checkPrompt e mainPrompt progress out =
     mainPrompt @ nl @ nl @ ''Progress Log: '' @ progress @ nl @ nl
     @ ''Last segment executed successfully. Output: '' @ template e out @ nl @ nl
     @ ''Is the project complete? Respond with '' @ dquote @ ''yes'' @ dquote @ '' or ''
     @ dquote @ ''no'' @ dquote @ ''.''"

definition outer_iteration_basic ::
  "env \<Rightarrow> nat \<Rightarrow> string \<Rightarrow> loop_state \<Rightarrow> basic_input \<Rightarrow> filesystem \<Rightarrow> step" where
  "outer_iteration_basic e contextLength mainPrompt st inp fs =
     (let req = basic_request contextLength basic_systemPromptGenerate
                  (basic_fullPrompt e mainPrompt (progressLog st) (errorLog st))
      in case b_generate inp of
           Failed ex \<Rightarrow> \<lparr>outcome = Crash ex, state = st, files = fs, sent = [req]\<rparr>
         | Reply c calls \<Rightarrow>
             if trim c = ''PROJECT_DONE''
             then \<lparr>outcome = Exit SentinelSeen, state = st, files = fs, sent = [req]\<rparr>
             else case executeSegment_basic e (trim c) fs of
               (Throw ex, fs', _) \<Rightarrow> \<lparr>outcome = Crash ex, state = st, files = fs', sent = [req]\<rparr>
             | (Normal execResult, fs', _) \<Rightarrow>
                 if exec_error execResult
                 then \<lparr>outcome = Continue, state = st\<lparr>errorLog := exec_log execResult\<rparr>,
                       files = fs', sent = [req]\<rparr>
                 else
                   let st' = st\<lparr>progressLog := progressLog st @ nl @ ''Successful segment: ''
                                                 @ trim c @ nl @ ''Output: ''
                                                 @ template e (exec_log execResult)\<rparr>;
                       reqs = [req, basic_request contextLength basic_systemPromptCheck
                                      (basic_checkPrompt e mainPrompt (progressLog st')
                                         (exec_log execResult))]
                   in (case b_check inp of
                         Failed ex \<Rightarrow> \<lparr>outcome = Crash ex, state = st', files = fs', sent = reqs\<rparr>
                       | Reply a calls' \<Rightarrow>
                           if toLowerCase (trim a) = ''yes''
                           then \<lparr>outcome = Exit CheckSaidYes, state = st', files = fs', sent = reqs\<rparr>
                           else \<lparr>outcome = Continue, state = st'\<lparr>errorLog := Some []\<rparr>,
                                 files = fs', sent = reqs\<rparr>))"

fun run_loop_basic ::
  "env \<Rightarrow> nat \<Rightarrow> string \<Rightarrow> loop_state \<Rightarrow> filesystem \<Rightarrow> basic_input list \<Rightarrow> run_result" where
  "run_loop_basic e ctx mainPrompt st fs [] = Running st fs"
| "run_loop_basic e ctx mainPrompt st fs (inp # inps) =
     (let r = outer_iteration_basic e ctx mainPrompt st inp fs in
      case outcome r of
        Continue \<Rightarrow> run_loop_basic e ctx mainPrompt (state r) (files r) inps
      | Exit reason \<Rightarrow> Exited reason (state r) (files r)
      | Crash err \<Rightarrow> Crashed err (state r) (files r)
      | Waiting \<Rightarrow> Blocked (state r) (files r))"

section \<open>Observations on an iteration\<close>

text \<open>
  The segment an iteration of the code-generating loop arrives at (with the file system
  the tool calls left), when the summary and generation turns get that far; and the
  result of executing it, when the segment does not hold the sentinel and the sandbox
  returns.
\<close>

definition iteration_segment ::
  "env \<Rightarrow> client list \<Rightarrow> nat \<Rightarrow> string \<Rightarrow> loop_state \<Rightarrow> iter_input \<Rightarrow> filesystem
   \<Rightarrow> (string \<times> filesystem) option" where
  "iteration_segment e clients ctx task st inp fs =
     (case errorLog st of
        None \<Rightarrow> None
      | Some err \<Rightarrow>
          (case in_summary inp of
             Failed ex \<Rightarrow> None
           | Reply c calls \<Rightarrow>
               (case generation_turn e clients ctx task (trim c) err (in_generate inp) fs of
                  (Final segment, fs', reqs) \<Rightarrow> Some (segment, fs')
                | (GenThrow ex, fs', reqs) \<Rightarrow> None
                | (Awaiting, fs', reqs) \<Rightarrow> None)))"

definition iteration_execution ::
  "env \<Rightarrow> client list \<Rightarrow> nat \<Rightarrow> string \<Rightarrow> loop_state \<Rightarrow> iter_input \<Rightarrow> filesystem
   \<Rightarrow> exec_result option" where
  "iteration_execution e clients ctx task st inp fs =
     (case iteration_segment e clients ctx task st inp fs of
        None \<Rightarrow> None
      | Some (segment, fs') \<Rightarrow>
          if js_includes segment ''PROJECT_DONE'' then None
          else (case executeSegment e (in_now inp) segment fs' of
                  (Normal execResult, fs'', ls) \<Rightarrow> Some execResult
                | (Throw err, fs'', ls) \<Rightarrow> None))"

text \<open>The same for the first agent: the segment is the trimmed reply.\<close>

definition basic_execution :: "env \<Rightarrow> basic_input \<Rightarrow> filesystem \<Rightarrow> exec_result option" where
  "basic_execution e inp fs =
     (case b_generate inp of
        Failed ex \<Rightarrow> None
      | Reply c calls \<Rightarrow>
          if trim c = ''PROJECT_DONE'' then None
          else (case executeSegment_basic e (trim c) fs of
                  (Normal execResult, fs', ls) \<Rightarrow> Some execResult
                | (Throw err, fs', ls) \<Rightarrow> None))"

text \<open>
  The two ways out of the loop, as conditions on an iteration. In the code-generating
  loop: the segment contains the sentinel; or the segment was executed without error
  and the reply to the completion check, in lower case, contains \<open>yes\<close>. In the first
  agent: the trimmed reply is the sentinel; or the segment was executed without error
  and the reply to the completion check, trimmed and in lower case, is \<open>yes\<close>.
\<close>

definition exits_by ::
  "env \<Rightarrow> client list \<Rightarrow> nat \<Rightarrow> string \<Rightarrow> loop_state \<Rightarrow> iter_input \<Rightarrow> filesystem
   \<Rightarrow> exit_reason \<Rightarrow> bool" where
  "exits_by e clients ctx task st inp fs reason =
     (case reason of
        SentinelSeen \<Rightarrow>
          (case iteration_segment e clients ctx task st inp fs of
             None \<Rightarrow> False
           | Some (segment, fs') \<Rightarrow> js_includes segment ''PROJECT_DONE'')
      | CheckSaidYes \<Rightarrow>
          (case iteration_execution e clients ctx task st inp fs of
             None \<Rightarrow> False
           | Some execResult \<Rightarrow>
               \<not> exec_error execResult
               \<and> (case in_check inp of
                      Failed ex \<Rightarrow> False
                    | Reply a calls \<Rightarrow> js_includes (toLowerCase a) ''yes'')))"

definition basic_exits_by :: "env \<Rightarrow> basic_input \<Rightarrow> filesystem \<Rightarrow> exit_reason \<Rightarrow> bool" where
  "basic_exits_by e inp fs reason =
     (case reason of
        SentinelSeen \<Rightarrow>
          (case b_generate inp of
             Failed ex \<Rightarrow> False
           | Reply c calls \<Rightarrow> trim c = ''PROJECT_DONE'')
      | CheckSaidYes \<Rightarrow>
          (case basic_execution e inp fs of
             None \<Rightarrow> False
           | Some execResult \<Rightarrow>
               \<not> exec_error execResult
               \<and> (case b_check inp of
                      Failed ex \<Rightarrow> False
                    | Reply a calls \<Rightarrow> toLowerCase (trim a) = ''yes'')))"

section \<open>Concrete states, inputs and environments\<close>

text \<open>
  The directory part of a path written with slashes, as \<open>path.dirname\<close> gives it for
  the paths used below.
\<close>

definition posix_dirname :: "string \<Rightarrow> string" where
  "posix_dirname p =
     (case rev (dropWhile (\<lambda>c. c \<noteq> CHR ''/'') (rev p)) of
        [] \<Rightarrow> ''.''
      | d # ds \<Rightarrow> (if butlast (d # ds) = [] then ''/'' else butlast (d # ds)))"

text \<open>
  A codec for the concrete environment. It is UTF-8 on the characters it knows: the ASCII
  characters, which are their own bytes, and three code units beyond ASCII, for which
  the model uses characters of the upper half: the replacement character U+FFFD (bytes
  EF BF BD) and the surrogates U+D800 and U+DC00, which together are the code point
  U+10000 (bytes F0 90 80 80). A byte that starts none of these sequences is decoded
  to the replacement character, as every invalid byte is; a code unit that cannot be
  encoded, such as a surrogate without its partner, is written as the replacement
  character.
\<close>

definition U_FFFD :: char where
  "U_FFFD = CHR 0xFD"

definition U_D800 :: char where
  "U_D800 = CHR 0xD8"

definition U_DC00 :: char where
  "U_DC00 = CHR 0xDC"

definition encode_unit :: "char \<Rightarrow> bytes" where
  "encode_unit c = (if (of_char c :: nat) < 128 then [c] else [CHR 0xEF, CHR 0xBF, CHR 0xBD])"

fun demo_encode :: "string \<Rightarrow> bytes" where
  "demo_encode [] = []"
| "demo_encode [c] = encode_unit c"
| "demo_encode (c # d # cs) =
     (if c = U_D800 \<and> d = U_DC00
      then [CHR 0xF0, CHR 0x90, CHR 0x80, CHR 0x80] @ demo_encode cs
      else encode_unit c @ demo_encode (d # cs))"

fun demo_decode :: "bytes \<Rightarrow> string" where
  "demo_decode [] = []"
| "demo_decode (b # bs) =
     (if (of_char b :: nat) < 128 then b # demo_decode bs
      else if take 3 (b # bs) = [CHR 0xEF, CHR 0xBF, CHR 0xBD]
           then U_FFFD # demo_decode (drop 2 bs)
      else if take 4 (b # bs) = [CHR 0xF0, CHR 0x90, CHR 0x80, CHR 0x80]
           then U_D800 # U_DC00 # demo_decode (drop 3 bs)
      else U_FFFD # demo_decode bs)"

text \<open>
  A small concrete environment: paths are joined with a slash, children do nothing. Its
  file systems hold the working directory, or the directory of the script.
\<close>

definition quiet :: spawn_result where
  "quiet = \<lparr>stdout = Some [], stderr = Some [], status = Some 0, error = None\<rparr>"

definition demo_env :: env where
  "demo_env = \<lparr>cwd = ''/work'', dirname = ''/opt/agent'',
                path_resolve = (\<lambda>d p. d @ ''/'' @ p), path_join = (\<lambda>d p. d @ ''/'' @ p),
                parent_of = posix_dirname,
                utf8_decode = demo_decode, utf8_encode = demo_encode,
                missing_text = ''null'',
                spawnSync = (\<lambda>l fs. (quiet, fs))\<rparr>"

text \<open>
  A child that runs for two minutes and then exits without output; under a time-out
  shorter than that it is killed, and the spawn reports the code \<open>ETIMEDOUT\<close>.
\<close>

definition timed_out :: spawn_result where
  "timed_out = \<lparr>stdout = Some [], stderr = Some [], status = None, error = Some ''ETIMEDOUT''\<rparr>"

definition slow_env :: env where
  "slow_env = demo_env\<lparr>spawnSync :=
     \<lambda>l fs. (case timeout_ms l of
                None \<Rightarrow> quiet
              | Some n \<Rightarrow> if n < 120000 then timed_out else quiet, fs)\<rparr>"

definition work_dir :: filesystem where
  "work_dir = [''/work'' \<mapsto> Directory]"

definition agent_dir :: filesystem where
  "agent_dir = [''/opt/agent'' \<mapsto> Directory]"

definition fresh_state :: loop_state where
  "fresh_state = \<lparr>progressLog = [], errorLog = Some [], projectStateSummary = ''No active task.''\<rparr>"

text \<open>A state with a pending error, as a failed iteration leaves it.\<close>

definition pending_state :: loop_state where
  "pending_state = \<lparr>progressLog = [], errorLog = Some ''ReferenceError: x is not defined'',
                     projectStateSummary = ''No active task.''\<rparr>"

definition reply_with :: "string \<Rightarrow> string \<Rightarrow> string \<Rightarrow> iter_input" where
  "reply_with summary segment answer =
     \<lparr>in_summary = Reply summary [], in_generate = [Reply segment []], in_now = 7,
      in_check = Reply answer []\<rparr>"

text \<open>A child that exits with status 1 and prints nothing, as \<open>process.exit(1)\<close> does.\<close>

definition silent_failure :: spawn_result where
  "silent_failure = \<lparr>stdout = Some [], stderr = Some [], status = Some 1, error = None\<rparr>"

definition failing_env :: env where
  "failing_env = demo_env\<lparr>spawnSync := \<lambda>l fs. (silent_failure, fs)\<rparr>"

section \<open>Reference notions for the tool properties\<close>

text \<open>
  Replacing all occurrences of a text, as the spec words it and as
  \<open>String.prototype.replaceAll\<close> does for a literal replacement: scan from the left,
  replace an occurrence and resume after it; the empty text occurs before every character
  and at the end.
\<close>

fun spec_replace_all :: "string \<Rightarrow> string \<Rightarrow> string \<Rightarrow> string" where
  "spec_replace_all search rep [] = (if search = [] then rep else [])"
| "spec_replace_all search rep (c # cs) =
     (if search = [] then rep @ c # spec_replace_all search rep cs
      else if prefix search (c # cs)
           then rep @ spec_replace_all search rep (drop (length search) (c # cs))
           else c # spec_replace_all search rep cs)"

text \<open>The positions at which a text occurs, and occurring exactly once.\<close>

definition occurrences :: "string \<Rightarrow> string \<Rightarrow> nat list" where
  "occurrences sub s = filter (\<lambda>i. prefix sub (drop i s)) [0..<Suc (length s)]"

definition occurs_once :: "string \<Rightarrow> string \<Rightarrow> bool" where
  "occurs_once sub s = (length (occurrences sub s) = 1)"

text \<open>The arguments of a \<open>search_and_replace\<close> and of a \<open>write_file\<close> call.\<close>

definition sar_args :: "string \<Rightarrow> string \<Rightarrow> string \<Rightarrow> jsargs" where
  "sar_args path search rep =
     [''path'' \<mapsto> JStr path, ''search'' \<mapsto> JStr search, ''replace'' \<mapsto> JStr rep]"

definition write_args :: "string \<Rightarrow> string \<Rightarrow> bool \<Rightarrow> jsargs" where
  "write_args path t app =
     [''path'' \<mapsto> JStr path, ''text'' \<mapsto> JStr t, ''append'' \<mapsto> JBool app]"

section \<open>Strings: searching, splitting and joining\<close>

lemma js_includes_iff: "js_includes s sub \<longleftrightarrow> (\<exists>i\<le>length s. prefix sub (drop i s))"
proof (induction s)
  case Nil
  then show ?case by simp
next
  case (Cons c cs)
  show ?case
  proof
    assume "js_includes (c # cs) sub"
    then consider "prefix sub (c # cs)" | "js_includes cs sub" by auto
    then show "\<exists>i\<le>length (c # cs). prefix sub (drop i (c # cs))"
    proof cases
      case 1
      then have "prefix sub (drop 0 (c # cs))" by simp
      then show ?thesis by blast
    next
      case 2
      with Cons.IH obtain i where "i \<le> length cs" "prefix sub (drop i cs)" by blast
      then have "Suc i \<le> length (c # cs)" "prefix sub (drop (Suc i) (c # cs))" by simp_all
      then show ?thesis by blast
    qed
  next
    assume "\<exists>i\<le>length (c # cs). prefix sub (drop i (c # cs))"
    then obtain i where i: "i \<le> length (c # cs)" "prefix sub (drop i (c # cs))" by blast
    show "js_includes (c # cs) sub"
    proof (cases i)
      case 0
      with i show ?thesis by simp
    next
      case (Suc j)
      with i have "j \<le> length cs" "prefix sub (drop j cs)" by simp_all
      with Cons.IH have "js_includes cs sub" by blast
      then show ?thesis by simp
    qed
  qed
qed

lemma split_from_nonempty: "split_from sep acc s \<noteq> []"
  by (induction sep acc s rule: split_from.induct) auto

lemma js_join_Cons: "ps \<noteq> [] \<Longrightarrow> js_join sep (p # ps) = p @ sep @ js_join sep ps"
  by (cases ps) simp_all

text \<open>
  For a separator that is not empty, splitting and joining is replacing all occurrences.
\<close>

lemma join_split_from:
  "sep \<noteq> [] \<Longrightarrow> js_join rep (split_from sep acc s) = acc @ spec_replace_all sep rep s"
proof (induction sep acc s rule: split_from.induct)
  case (1 sep acc)
  then show ?case by simp
next
  case (2 sep acc c cs)
  show ?case
  proof (cases "prefix sep (c # cs)")
    case True
    with 2 show ?thesis
      by (simp add: js_join_Cons split_from_nonempty)
  next
    case False
    with 2 show ?thesis by simp
  qed
qed

lemma join_split: "sep \<noteq> [] \<Longrightarrow> js_join rep (js_split sep s) = spec_replace_all sep rep s"
  by (simp add: js_split_def join_split_from)

text \<open>
  Without an occurrence the scan yields one piece; up to the first occurrence it yields
  what stands before it.
\<close>

lemma split_from_absent:
  "\<not> js_includes s sep \<Longrightarrow> split_from sep acc s = [acc @ s]"
  by (induction sep acc s rule: split_from.induct) auto

lemma split_from_first:
  "sep \<noteq> [] \<Longrightarrow> \<forall>i<length p. \<not> prefix sep (drop i (p @ sep @ q)) \<Longrightarrow>
   split_from sep acc (p @ sep @ q) = (acc @ p) # split_from sep [] q"
proof (induction p arbitrary: acc)
  case Nil
  then show ?case by (cases sep) simp_all
next
  case (Cons c p)
  from Cons.prems(2) have "\<not> prefix sep (drop 0 ((c # p) @ sep @ q))" by blast
  then have np: "\<not> prefix sep (c # p @ sep @ q)" by simp
  have "\<forall>i<length p. \<not> prefix sep (drop i (p @ sep @ q))"
  proof (intro allI impI)
    fix i assume "i < length p"
    then have "Suc i < length (c # p)" by simp
    with Cons.prems(2) have "\<not> prefix sep (drop (Suc i) ((c # p) @ sep @ q))" by blast
    then show "\<not> prefix sep (drop i (p @ sep @ q))" by simp
  qed
  with Cons.IH[OF Cons.prems(1), of "acc @ [c]"] np show ?case by simp
qed


lemma occurrence_mem: "i \<in> set (occurrences sub s) \<longleftrightarrow> i \<le> length s \<and> prefix sub (drop i s)"
  by (simp add: occurrences_def less_Suc_eq_le del: upt_Suc)

lemma occurs_once_unique:
  assumes "occurs_once sub s" "i \<le> length s" "prefix sub (drop i s)"
          "j \<le> length s" "prefix sub (drop j s)"
  shows "i = j"
proof -
  from assms(1) obtain k where k: "occurrences sub s = [k]"
    by (auto simp: occurs_once_def length_Suc_conv)
  from assms(2,3) have "i \<in> set (occurrences sub s)" by (simp add: occurrence_mem)
  moreover from assms(4,5) have "j \<in> set (occurrences sub s)" by (simp add: occurrence_mem)
  ultimately show ?thesis using k by simp
qed

lemma occurs_once_decompose:
  assumes "occurs_once sub s"
  obtains p q where "s = p @ sub @ q"
proof -
  from assms obtain k where k: "occurrences sub s = [k]"
    by (auto simp: occurs_once_def length_Suc_conv)
  then have "k \<in> set (occurrences sub s)" by simp
  then have "prefix sub (drop k s)" by (simp add: occurrence_mem)
  then obtain q where "drop k s = sub @ q" by (auto simp: prefix_def)
  then have "s = take k s @ sub @ q" by (metis append_take_drop_id)
  then show ?thesis using that by blast
qed

lemma split_once:
  assumes sep: "sep \<noteq> []" and once: "occurs_once sep (p @ sep @ q)"
  shows "js_split sep (p @ sep @ q) = [p, q]"
proof -
  let ?s = "p @ sep @ q"
  have at_p: "length p \<le> length ?s" "prefix sep (drop (length p) ?s)" by simp_all
  have before: "\<forall>i<length p. \<not> prefix sep (drop i ?s)"
  proof (intro allI impI notI)
    fix i assume i: "i < length p" and pre: "prefix sep (drop i ?s)"
    from i have "i \<le> length ?s" by simp
    from occurs_once_unique[OF once this pre at_p] i show False by simp
  qed
  have after: "\<not> js_includes q sep"
  proof
    assume "js_includes q sep"
    then obtain j where j: "j \<le> length q" "prefix sep (drop j q)"
      by (auto simp: js_includes_iff)
    let ?i = "length p + length sep + j"
    have "drop ?i ?s = drop j q" by simp
    with j have "?i \<le> length ?s" "prefix sep (drop ?i ?s)" by simp_all
    from occurs_once_unique[OF once this at_p] sep show False by simp
  qed
  have "split_from sep [] ?s = ([] @ p) # split_from sep [] q"
    using sep before by (rule split_from_first)
  also have "split_from sep [] q = [[] @ q]"
    using after by (rule split_from_absent)
  finally show ?thesis using sep by (simp add: js_split_def)
qed

lemma replace_round_trip:
  assumes once: "occurs_once search s" and search: "search \<noteq> []" and rep: "rep \<noteq> []"
      and once': "occurs_once rep (js_join rep (js_split search s))"
  shows "js_join search (js_split rep (js_join rep (js_split search s))) = s"
proof -
  from once obtain p q where s: "s = p @ search @ q" by (rule occurs_once_decompose)
  with once search have "js_split search s = [p, q]" by (simp add: split_once)
  then have mid: "js_join rep (js_split search s) = p @ rep @ q" by simp
  with once' rep have "js_split rep (p @ rep @ q) = [p, q]" by (simp add: split_once)
  with mid s show ?thesis by simp
qed

lemma occurs_once_empty_search: "occurs_once [] s \<longleftrightarrow> s = []"
  by (simp add: occurs_once_def occurrences_def del: upt_Suc)

lemma occurs_once_in_empty: "occurs_once sub [] \<longleftrightarrow> sub = []"
  by (simp add: occurs_once_def occurrences_def)

lemma js_includes_middle: "js_includes (u @ sub @ v) sub"
proof -
  have "length u \<le> length (u @ sub @ v)" "prefix sub (drop (length u) (u @ sub @ v))"
    by simp_all
  then show ?thesis unfolding js_includes_iff by blast
qed

section \<open>The file tools\<close>

text \<open>
  \<open>search_and_replace\<close> on a file that can be read, with arguments that are strings:
  the text is searched, and when it is found the new text is handed to \<open>writeFileSync\<close>,
  whose exception the \<open>catch\<close> block turns into a text.
\<close>

lemma sar_read:
  assumes "field args ''path'' = JStr path" "path \<noteq> []"
      and "field args ''search'' = JStr search" "field args ''replace'' = JStr rep"
      and "path_resolve e (cwd e) path = p" "readFileSync e fs p = Inr data"
  shows "handleNativeTool e ''search_and_replace'' args fs =
           (if js_includes data search
            then (case writeFileSync e fs p (JStr (js_join rep (js_split search data))) of
                    Inl err \<Rightarrow>
                      (Normal (JStr (''Error executing search_and_replace: '' @ message err)), fs)
                  | Inr fs' \<Rightarrow> (Normal (JStr (''Successfully replaced text in '' @ path)), fs'))
            else (Normal (JStr (''Error: String '' @ dquote @ search @ dquote @ '' not found.'')), fs))"
  using assms
  by (simp add: handleNativeTool_def tool_body_def search_and_replace_tool_def catch_all_def
                resolve_arg_def split_val_def join_val_def split: sum.splits)

lemma sar_strings:
  assumes "field args ''path'' = JStr path" "path \<noteq> []"
      and "field args ''search'' = JStr search" "field args ''replace'' = JStr rep"
      and "path_resolve e (cwd e) path = p" "p \<noteq> []" "fs p = Some (File b)"
  shows "handleNativeTool e ''search_and_replace'' args fs =
           (if js_includes (utf8_decode e b) search
            then (Normal (JStr (''Successfully replaced text in '' @ path)),
                  fs(p \<mapsto> File (utf8_encode e (js_join rep (js_split search (utf8_decode e b))))))
            else (Normal (JStr (''Error: String '' @ dquote @ search @ dquote @ '' not found.'')), fs))"
proof -
  from assms(6,7) have r: "readFileSync e fs p = Inr (utf8_decode e b)"
    by (simp add: readFileSync_def)
  from assms(6,7) have w: "\<And>t. writeFileSync e fs p (JStr t) = Inr (fs(p \<mapsto> File (utf8_encode e t)))"
    by (simp add: writeFileSync_def)
  show ?thesis unfolding sar_read[OF assms(1-5) r] w by simp
qed

lemma sar_read_only:
  assumes "field args ''path'' = JStr path" "path \<noteq> []"
      and "field args ''search'' = JStr search" "field args ''replace'' = JStr rep"
      and "path_resolve e (cwd e) path = p" "p \<noteq> []" "fs p = Some (ReadOnlyFile b)"
  shows "handleNativeTool e ''search_and_replace'' args fs =
           (if js_includes (utf8_decode e b) search
            then (Normal (JStr (''Error executing search_and_replace: ''
                                @ message (EACCES ''open'' p))), fs)
            else (Normal (JStr (''Error: String '' @ dquote @ search @ dquote @ '' not found.'')), fs))"
proof -
  from assms(6,7) have r: "readFileSync e fs p = Inr (utf8_decode e b)"
    by (simp add: readFileSync_def)
  from assms(6,7) have w: "\<And>t. writeFileSync e fs p (JStr t) = Inl (EACCES ''open'' p)"
    by (simp add: writeFileSync_def)
  show ?thesis unfolding sar_read[OF assms(1-5) r] w by simp
qed

lemma field_sar_args [simp]:
  "field (sar_args path search rep) ''path'' = JStr path"
  "field (sar_args path search rep) ''search'' = JStr search"
  "field (sar_args path search rep) ''replace'' = JStr rep"
  by (simp_all add: field_def sar_args_def)

lemma field_write_args [simp]:
  "field (write_args path t app) ''path'' = JStr path"
  "field (write_args path t app) ''text'' = JStr t"
  "field (write_args path t app) ''append'' = JBool app"
  by (simp_all add: field_def write_args_def)

text \<open>The concrete environment: its paths and its codec on the texts used below.\<close>

lemma demo_resolve [simp]: "path_resolve demo_env (cwd demo_env) p = ''/work/'' @ p"
  by (simp add: demo_env_def)

lemma demo_codec [simp]:
  "utf8_decode demo_env = demo_decode" "utf8_encode demo_env = demo_encode"
  by (simp_all add: demo_env_def)

lemma demo_parent [simp]:
  "parent_of demo_env ''/work/x.txt'' = ''/work''"
  by (simp add: demo_env_def posix_dirname_def)

lemma ascii_units:
  "encode_unit (CHR ''a'') = ''a''" "encode_unit (CHR ''b'') = ''b''"
  "encode_unit (CHR ''c'') = ''c''" "encode_unit (CHR ''d'') = ''d''"
  "encode_unit (CHR ''x'') = ''x''" "encode_unit (CHR ''y'') = ''y''"
  "encode_unit (CHR ''A'') = ''A''" "encode_unit (CHR ''X'') = ''X''"
  by (simp_all add: encode_unit_def)

lemma other_units:
  "encode_unit U_FFFD = [CHR 0xEF, CHR 0xBF, CHR 0xBD]"
  "encode_unit U_D800 = [CHR 0xEF, CHR 0xBF, CHR 0xBD]"
  "encode_unit U_DC00 = [CHR 0xEF, CHR 0xBF, CHR 0xBD]"
  by (simp_all add: encode_unit_def U_FFFD_def U_D800_def U_DC00_def)

lemma unit_distinct [simp]:
  "CHR ''a'' \<noteq> U_D800" "CHR ''b'' \<noteq> U_D800" "CHR ''c'' \<noteq> U_D800" "CHR ''d'' \<noteq> U_D800"
  "CHR ''x'' \<noteq> U_D800" "CHR ''y'' \<noteq> U_D800" "CHR ''A'' \<noteq> U_D800" "CHR ''X'' \<noteq> U_D800"
  "U_FFFD \<noteq> U_D800" "U_DC00 \<noteq> U_D800" "U_D800 \<noteq> U_DC00" "U_FFFD \<noteq> U_DC00"
  "CHR ''A'' \<noteq> U_DC00" "CHR ''x'' \<noteq> U_DC00"
  "U_D800 \<noteq> CHR ''A''" "U_D800 \<noteq> CHR ''x''" "U_DC00 \<noteq> CHR ''A''" "U_DC00 \<noteq> CHR ''x''"
  "U_FFFD \<noteq> CHR ''A''" "U_FFFD \<noteq> CHR ''x''" "U_FFFD \<noteq> CHR ''b''" "U_FFFD \<noteq> CHR ''y''"
  "CHR ''A'' \<noteq> U_FFFD" "CHR ''x'' \<noteq> U_FFFD" "CHR ''b'' \<noteq> U_FFFD" "CHR ''y'' \<noteq> U_FFFD"
  by (simp_all add: U_FFFD_def U_D800_def U_DC00_def)

text \<open>
  C5 (as stated, refuted). The empty search text occurs in every file, so the replacing
  branch runs; splitting at the empty text and joining puts the replacement between the
  characters only, where replacing all occurrences of the empty text also puts it in
  front and at the end. And in a file that the process may not write, the search text
  \<open>b\<close> occurs, but nothing is replaced: the write fails and its error text is returned.
\<close>

theorem search_and_replace_empty_search_counterexample:
  "js_includes ''ab'' [] \<and>
   snd (handleNativeTool demo_env ''search_and_replace'' (sar_args ''x.txt'' [] ''X'')
          (work_dir(''/work/x.txt'' \<mapsto> File ''ab''))) ''/work/x.txt'' = Some (File ''aXb'') \<and>
   spec_replace_all [] ''X'' ''ab'' = ''XaXbX'' \<and>
   js_includes ''ab'' ''b'' \<and>
   handleNativeTool demo_env ''search_and_replace'' (sar_args ''x.txt'' ''b'' ''c'')
     (work_dir(''/work/x.txt'' \<mapsto> ReadOnlyFile ''ab'')) =
   (Normal (JStr (''Error executing search_and_replace: EACCES: permission denied, open ''
                  @ squote ''/work/x.txt'')),
    work_dir(''/work/x.txt'' \<mapsto> ReadOnlyFile ''ab''))"
proof -
  have 1: "snd (handleNativeTool demo_env ''search_and_replace'' (sar_args ''x.txt'' [] ''X'')
          (work_dir(''/work/x.txt'' \<mapsto> File ''ab''))) ''/work/x.txt'' = Some (File ''aXb'')"
    by (simp add: sar_strings[where path="''x.txt''" and p="''/work/x.txt''" and b="''ab''"]
                  js_split_def ascii_units)
  have 2: "handleNativeTool demo_env ''search_and_replace'' (sar_args ''x.txt'' ''b'' ''c'')
     (work_dir(''/work/x.txt'' \<mapsto> ReadOnlyFile ''ab'')) =
   (Normal (JStr (''Error executing search_and_replace: EACCES: permission denied, open ''
                  @ squote ''/work/x.txt'')),
    work_dir(''/work/x.txt'' \<mapsto> ReadOnlyFile ''ab''))"
    by (simp add: sar_read_only[where path="''x.txt''" and p="''/work/x.txt''" and b="''ab''"])
  from 1 2 show ?thesis by simp
qed

text \<open>
  C5 (amended). For every file that can be read and every search text that does not occur
  in the text read from it, \<open>search_and_replace\<close> returns the error text and leaves the
  whole file system as it was, so the bytes of the file are unchanged. For every search
  text that is not empty and occurs in a file that can be written, the file is rewritten
  with every occurrence replaced (leftmost first, not overlapping) and the success text
  is returned. When the search text occurs in a file that the process may read but not
  write, the error text of the failed write is returned and the file system is as it was.
\<close>

theorem search_and_replace_atomic:
  assumes "field args ''path'' = JStr path" "path \<noteq> []"
      and "field args ''search'' = JStr search" "field args ''replace'' = JStr rep"
      and "path_resolve e (cwd e) path = p" "p \<noteq> []"
  shows "(\<forall>data. readFileSync e fs p = Inr data \<and> \<not> js_includes data search \<longrightarrow>
            handleNativeTool e ''search_and_replace'' args fs =
              (Normal (JStr (''Error: String '' @ dquote @ search @ dquote @ '' not found.'')), fs))
       \<and> (\<forall>b. fs p = Some (File b) \<and> search \<noteq> [] \<and> js_includes (utf8_decode e b) search \<longrightarrow>
            handleNativeTool e ''search_and_replace'' args fs =
              (Normal (JStr (''Successfully replaced text in '' @ path)),
               fs(p \<mapsto> File (utf8_encode e (spec_replace_all search rep (utf8_decode e b))))))
       \<and> (\<forall>b. fs p = Some (ReadOnlyFile b) \<and> js_includes (utf8_decode e b) search \<longrightarrow>
            handleNativeTool e ''search_and_replace'' args fs =
              (Normal (JStr (''Error executing search_and_replace: ''
                             @ message (EACCES ''open'' p))), fs))"
proof (intro conjI allI impI)
  fix data
  assume "readFileSync e fs p = Inr data \<and> \<not> js_includes data search"
  then show "handleNativeTool e ''search_and_replace'' args fs =
              (Normal (JStr (''Error: String '' @ dquote @ search @ dquote @ '' not found.'')), fs)"
    using sar_read[OF assms(1-5), of fs data] by simp
next
  fix b
  assume "fs p = Some (File b) \<and> search \<noteq> [] \<and> js_includes (utf8_decode e b) search"
  then show "handleNativeTool e ''search_and_replace'' args fs =
              (Normal (JStr (''Successfully replaced text in '' @ path)),
               fs(p \<mapsto> File (utf8_encode e (spec_replace_all search rep (utf8_decode e b)))))"
    using sar_strings[OF assms, of fs b] by (simp add: join_split)
next
  fix b
  assume "fs p = Some (ReadOnlyFile b) \<and> js_includes (utf8_decode e b) search"
  then show "handleNativeTool e ''search_and_replace'' args fs =
              (Normal (JStr (''Error executing search_and_replace: ''
                             @ message (EACCES ''open'' p))), fs)"
    using sar_read_only[OF assms, of fs b] by simp
qed

text \<open>
  A search text that is absent from a read-only file, and one that occurs twice in a
  writable file.
\<close>

theorem search_and_replace_atomic_witness:
  "readFileSync demo_env (work_dir(''/work/x.txt'' \<mapsto> ReadOnlyFile ''abab'')) ''/work/x.txt''
     = Inr ''abab''
   \<and> \<not> js_includes ''abab'' ''zz'' \<and> js_includes ''abab'' ''b''
   \<and> handleNativeTool demo_env ''search_and_replace'' (sar_args ''x.txt'' ''zz'' ''c'')
      (work_dir(''/work/x.txt'' \<mapsto> ReadOnlyFile ''abab'')) =
     (Normal (JStr (''Error: String '' @ dquote @ ''zz'' @ dquote @ '' not found.'')),
      work_dir(''/work/x.txt'' \<mapsto> ReadOnlyFile ''abab''))
   \<and> handleNativeTool demo_env ''search_and_replace'' (sar_args ''x.txt'' ''b'' ''cd'')
      (work_dir(''/work/x.txt'' \<mapsto> File ''abab'')) =
     (Normal (JStr ''Successfully replaced text in x.txt''),
      work_dir(''/work/x.txt'' \<mapsto> File ''acdacd''))"
proof -
  let ?ro = "work_dir(''/work/x.txt'' \<mapsto> ReadOnlyFile ''abab'')"
  let ?rw = "work_dir(''/work/x.txt'' \<mapsto> File ''abab'')"
  have r: "readFileSync demo_env ?ro ''/work/x.txt'' = Inr ''abab''"
    by (simp add: readFileSync_def)
  have 1: "handleNativeTool demo_env ''search_and_replace'' (sar_args ''x.txt'' ''zz'' ''c'') ?ro =
     (Normal (JStr (''Error: String '' @ dquote @ ''zz'' @ dquote @ '' not found.'')), ?ro)"
    using search_and_replace_atomic[where e=demo_env and path="''x.txt''" and p="''/work/x.txt''"
              and fs="?ro" and args="sar_args ''x.txt'' ''zz'' ''c''" and search="''zz''"
              and rep="''c''", THEN conjunct1] r
    by simp
  have 2: "handleNativeTool demo_env ''search_and_replace'' (sar_args ''x.txt'' ''b'' ''cd'') ?rw =
     (Normal (JStr ''Successfully replaced text in x.txt''),
      work_dir(''/work/x.txt'' \<mapsto> File ''acdacd''))"
    using search_and_replace_atomic[where e=demo_env and path="''x.txt''" and p="''/work/x.txt''"
              and fs="?rw" and args="sar_args ''x.txt'' ''b'' ''cd''" and search="''b''"
              and rep="''cd''", THEN conjunct2, THEN conjunct1]
    by (simp add: ascii_units)
  from r 1 2 show ?thesis by simp
qed

text \<open>
  Two calls on a file that the process may not write change nothing, whatever the
  texts are.
\<close>

lemma sar_read_only_unchanged:
  assumes "path \<noteq> []" "path_resolve e (cwd e) path = p" "p \<noteq> []" "fs p = Some (ReadOnlyFile b)"
  shows "snd (handleNativeTool e ''search_and_replace'' (sar_args path search rep) fs) = fs"
  using sar_read_only[of "sar_args path search rep" path search rep e p fs b] assms by simp

text \<open>
  The round trip on a writable file whose bytes are the encoding of its text, when the
  first call's text is read back as it was written.
\<close>

lemma round_trip_writable:
  assumes path: "path \<noteq> []" "path_resolve e (cwd e) path = p" "p \<noteq> []"
      and content: "fs p = Some (File b)"
      and valid: "utf8_encode e (utf8_decode e b) = b"
      and once: "occurs_once search (utf8_decode e b)"
      and rep: "rep \<noteq> []"
      and readback: "readFileSync e
                       (snd (handleNativeTool e ''search_and_replace'' (sar_args path search rep) fs)) p
                     = Inr (spec_replace_all search rep (utf8_decode e b))"
      and once': "occurs_once rep (spec_replace_all search rep (utf8_decode e b))"
  shows "snd (handleNativeTool e ''search_and_replace'' (sar_args path rep search)
               (snd (handleNativeTool e ''search_and_replace'' (sar_args path search rep) fs))) = fs"
proof -
  let ?data = "utf8_decode e b"
  let ?first = "snd (handleNativeTool e ''search_and_replace'' (sar_args path search rep) fs)"
  note first = sar_strings[of "sar_args path search rep" path search rep e p fs b,
                           OF _ path(1) _ _ path(2,3) content, simplified]
  have search: "search \<noteq> []"
  proof
    assume e: "search = []"
    with once have d: "?data = []" by (simp add: occurs_once_empty_search)
    with e first valid have "?first = fs(p \<mapsto> File b)" by (simp add: js_split_def)
    with content have "?first = fs" by (simp add: fun_upd_idem)
    with readback content path(3) d e have "rep = []" by (simp add: readFileSync_def)
    with rep show False by simp
  qed
  from once obtain u v where d: "?data = u @ search @ v" by (rule occurs_once_decompose)
  then have inc: "js_includes ?data search" by (simp add: js_includes_middle)
  have sp: "js_split search ?data = [u, v]"
    using split_once[OF search] once d by simp
  have w: "spec_replace_all search rep ?data = u @ rep @ v"
    using join_split[OF search, of rep ?data] sp by simp
  from first inc sp have fs1: "?first = fs(p \<mapsto> File (utf8_encode e (u @ rep @ v)))" by simp
  with readback path(3) w have kept: "utf8_decode e (utf8_encode e (u @ rep @ v)) = u @ rep @ v"
    by (simp add: readFileSync_def)
  have mid: "?first p = Some (File (utf8_encode e (u @ rep @ v)))" by (simp add: fs1)
  have sp1: "js_split rep (u @ rep @ v) = [u, v]"
    using split_once[OF rep] once' w by simp
  note second = sar_strings[of "sar_args path rep search" path rep search e p ?first
                              "utf8_encode e (u @ rep @ v)",
                            OF _ path(1) _ _ path(2,3) mid, simplified]
  from second kept sp1 have
    "snd (handleNativeTool e ''search_and_replace'' (sar_args path rep search) ?first)
       = ?first(p \<mapsto> File (utf8_encode e (u @ search @ v)))"
    by (simp add: js_includes_middle)
  also have "\<dots> = fs(p \<mapsto> File b)" using fs1 d valid by simp
  also have "\<dots> = fs" using content by (simp add: fun_upd_idem)
  finally show ?thesis .
qed

lemma occurs_once_single: "occurs_once [c] [c]"
  by (simp add: occurs_once_def occurrences_def)

text \<open>
  C6 (as stated, refuted), in four files in which the search text occurs exactly once.
  The file \<open>ab\<close>: replacing \<open>b\<close> by \<open>a\<close> gives \<open>aa\<close>, and the swapped call replaces
  both \<open>a\<close> and leaves \<open>bb\<close>. The file \<open>b\<close>: replacing \<open>b\<close> by the empty text empties
  the file, and the swapped call, which splits at the empty text, leaves it empty. The
  file with the bytes FF and \<open>b\<close>, which is not valid UTF-8: the byte FF is read as the
  replacement character and written back as EF BF BD by the first call, so after the
  swapped call the file holds EF BF BD and \<open>b\<close>. The file \<open>x\<close> followed by F0 90 80 80,
  the code point U+10000, which is read as two surrogates: replacing the first surrogate
  by \<open>A\<close> leaves the second one alone, it is written as EF BF BD, and the swapped call
  cannot bring the code point back. In the last two the replacement text occurs exactly
  once after the first call.
\<close>

theorem round_trip_counterexample:
  "occurs_once ''b'' ''ab'' \<and>
   snd (handleNativeTool demo_env ''search_and_replace'' (sar_args ''x.txt'' ''a'' ''b'')
         (snd (handleNativeTool demo_env ''search_and_replace'' (sar_args ''x.txt'' ''b'' ''a'')
                 (work_dir(''/work/x.txt'' \<mapsto> File ''ab''))))) ''/work/x.txt'' = Some (File ''bb'')
   \<and> occurs_once ''b'' ''b'' \<and>
   snd (handleNativeTool demo_env ''search_and_replace'' (sar_args ''x.txt'' [] ''b'')
         (snd (handleNativeTool demo_env ''search_and_replace'' (sar_args ''x.txt'' ''b'' [])
                 (work_dir(''/work/x.txt'' \<mapsto> File ''b''))))) ''/work/x.txt'' = Some (File [])
   \<and> demo_decode [CHR 0xFF, CHR ''b''] = [U_FFFD, CHR ''b'']
   \<and> occurs_once ''b'' [U_FFFD, CHR ''b''] \<and> occurs_once ''xy'' [U_FFFD, CHR ''x'', CHR ''y'']
   \<and> snd (handleNativeTool demo_env ''search_and_replace'' (sar_args ''x.txt'' ''xy'' ''b'')
         (snd (handleNativeTool demo_env ''search_and_replace'' (sar_args ''x.txt'' ''b'' ''xy'')
                 (work_dir(''/work/x.txt'' \<mapsto> File [CHR 0xFF, CHR ''b''])))))
       ''/work/x.txt'' = Some (File [CHR 0xEF, CHR 0xBF, CHR 0xBD, CHR ''b''])
   \<and> demo_decode [CHR ''x'', CHR 0xF0, CHR 0x90, CHR 0x80, CHR 0x80] = [CHR ''x'', U_D800, U_DC00]
   \<and> demo_encode [CHR ''x'', U_D800, U_DC00] = [CHR ''x'', CHR 0xF0, CHR 0x90, CHR 0x80, CHR 0x80]
   \<and> occurs_once [U_D800] [CHR ''x'', U_D800, U_DC00]
   \<and> occurs_once ''A'' [CHR ''x'', CHR ''A'', U_FFFD]
   \<and> snd (handleNativeTool demo_env ''search_and_replace'' (sar_args ''x.txt'' ''A'' [U_D800])
         (snd (handleNativeTool demo_env ''search_and_replace'' (sar_args ''x.txt'' [U_D800] ''A'')
                 (work_dir(''/work/x.txt'' \<mapsto> File [CHR ''x'', CHR 0xF0, CHR 0x90, CHR 0x80, CHR 0x80])))))
       ''/work/x.txt''
     = Some (File [CHR ''x'', CHR 0xEF, CHR 0xBF, CHR 0xBD, CHR 0xEF, CHR 0xBF, CHR 0xBD])"
proof -
  note sar = sar_strings[where e=demo_env and path="''x.txt''" and p="''/work/x.txt''"]
  have a1: "handleNativeTool demo_env ''search_and_replace'' (sar_args ''x.txt'' ''b'' ''a'')
             (work_dir(''/work/x.txt'' \<mapsto> File ''ab'')) =
           (Normal (JStr ''Successfully replaced text in x.txt''),
            work_dir(''/work/x.txt'' \<mapsto> File ''aa''))"
    by (simp add: sar[where b="''ab''"] js_split_def ascii_units)
  have a2: "handleNativeTool demo_env ''search_and_replace'' (sar_args ''x.txt'' ''a'' ''b'')
             (work_dir(''/work/x.txt'' \<mapsto> File ''aa'')) =
           (Normal (JStr ''Successfully replaced text in x.txt''),
            work_dir(''/work/x.txt'' \<mapsto> File ''bb''))"
    by (simp add: sar[where b="''aa''"] js_split_def ascii_units)
  have a3: "occurs_once ''b'' ''ab''"
    by (simp add: occurs_once_def occurrences_def)
  have b1: "handleNativeTool demo_env ''search_and_replace'' (sar_args ''x.txt'' ''b'' [])
             (work_dir(''/work/x.txt'' \<mapsto> File ''b'')) =
           (Normal (JStr ''Successfully replaced text in x.txt''),
            work_dir(''/work/x.txt'' \<mapsto> File []))"
    by (simp add: sar[where b="''b''"] js_split_def ascii_units)
  have b2: "handleNativeTool demo_env ''search_and_replace'' (sar_args ''x.txt'' [] ''b'')
             (work_dir(''/work/x.txt'' \<mapsto> File [])) =
           (Normal (JStr ''Successfully replaced text in x.txt''),
            work_dir(''/work/x.txt'' \<mapsto> File []))"
    by (simp add: sar[where b="[]"] js_split_def)
  have b3: "occurs_once ''b'' ''b''" by (rule occurs_once_single)
  have c0: "demo_decode [CHR 0xFF, CHR ''b''] = [U_FFFD, CHR ''b'']"
    by simp
  have c1: "handleNativeTool demo_env ''search_and_replace'' (sar_args ''x.txt'' ''b'' ''xy'')
             (work_dir(''/work/x.txt'' \<mapsto> File [CHR 0xFF, CHR ''b''])) =
           (Normal (JStr ''Successfully replaced text in x.txt''),
            work_dir(''/work/x.txt'' \<mapsto> File [CHR 0xEF, CHR 0xBF, CHR 0xBD, CHR ''x'', CHR ''y'']))"
    by (simp add: sar[where b="[CHR 0xFF, CHR ''b'']"] js_split_def ascii_units other_units)
  have c2: "handleNativeTool demo_env ''search_and_replace'' (sar_args ''x.txt'' ''xy'' ''b'')
             (work_dir(''/work/x.txt'' \<mapsto> File [CHR 0xEF, CHR 0xBF, CHR 0xBD, CHR ''x'', CHR ''y''])) =
           (Normal (JStr ''Successfully replaced text in x.txt''),
            work_dir(''/work/x.txt'' \<mapsto> File [CHR 0xEF, CHR 0xBF, CHR 0xBD, CHR ''b'']))"
    by (simp add: sar[where b="[CHR 0xEF, CHR 0xBF, CHR 0xBD, CHR ''x'', CHR ''y'']"]
                  js_split_def ascii_units other_units)
  have c3: "occurs_once ''b'' [U_FFFD, CHR ''b'']" "occurs_once ''xy'' [U_FFFD, CHR ''x'', CHR ''y'']"
    by (simp_all add: occurs_once_def occurrences_def)
  have d0: "demo_decode [CHR ''x'', CHR 0xF0, CHR 0x90, CHR 0x80, CHR 0x80] = [CHR ''x'', U_D800, U_DC00]"
           "demo_encode [CHR ''x'', U_D800, U_DC00] = [CHR ''x'', CHR 0xF0, CHR 0x90, CHR 0x80, CHR 0x80]"
    by (simp_all add: ascii_units)
  have d1: "handleNativeTool demo_env ''search_and_replace'' (sar_args ''x.txt'' [U_D800] ''A'')
             (work_dir(''/work/x.txt'' \<mapsto> File [CHR ''x'', CHR 0xF0, CHR 0x90, CHR 0x80, CHR 0x80])) =
           (Normal (JStr ''Successfully replaced text in x.txt''),
            work_dir(''/work/x.txt'' \<mapsto> File [CHR ''x'', CHR ''A'', CHR 0xEF, CHR 0xBF, CHR 0xBD]))"
    by (simp add: sar[where b="[CHR ''x'', CHR 0xF0, CHR 0x90, CHR 0x80, CHR 0x80]"]
                  js_split_def ascii_units other_units)
  have d2: "handleNativeTool demo_env ''search_and_replace'' (sar_args ''x.txt'' ''A'' [U_D800])
             (work_dir(''/work/x.txt'' \<mapsto> File [CHR ''x'', CHR ''A'', CHR 0xEF, CHR 0xBF, CHR 0xBD])) =
           (Normal (JStr ''Successfully replaced text in x.txt''),
            work_dir(''/work/x.txt'' \<mapsto>
              File [CHR ''x'', CHR 0xEF, CHR 0xBF, CHR 0xBD, CHR 0xEF, CHR 0xBF, CHR 0xBD]))"
    by (simp add: sar[where b="[CHR ''x'', CHR ''A'', CHR 0xEF, CHR 0xBF, CHR 0xBD]"]
                  js_split_def ascii_units other_units)
  have d3: "occurs_once [U_D800] [CHR ''x'', U_D800, U_DC00]"
           "occurs_once ''A'' [CHR ''x'', CHR ''A'', U_FFFD]"
    by (simp_all add: occurs_once_def occurrences_def)
  show ?thesis
    unfolding a1 a2 b1 b2 c1 c2 d1 d2 snd_conv
    using a3 b3 c0 c3 d0 d3 by simp
qed

text \<open>
  C6 (amended). Let the search text occur exactly once in the text of a file that can be
  written, and let the replacement text be not empty. Let the bytes of the file be valid
  UTF-8, that is, the encoding of the text read from them; let the text that the first
  call writes, the original with the search text replaced, be read back unchanged, as it
  is unless it holds a surrogate without its partner; and let the replacement text occur
  exactly once in it. Then the call with search and replacement swapped restores the file
  system, so the file has its original bytes. A file that the process may read but not
  write keeps its bytes through both calls, whatever the two texts are.
\<close>

theorem search_and_replace_round_trip:
  assumes "path \<noteq> []" "path_resolve e (cwd e) path = p" "p \<noteq> []"
  shows "(\<forall>b. fs p = Some (File b)
              \<and> utf8_encode e (utf8_decode e b) = b
              \<and> occurs_once search (utf8_decode e b)
              \<and> rep \<noteq> []
              \<and> readFileSync e
                    (snd (handleNativeTool e ''search_and_replace'' (sar_args path search rep) fs)) p
                  = Inr (spec_replace_all search rep (utf8_decode e b))
              \<and> occurs_once rep (spec_replace_all search rep (utf8_decode e b))
            \<longrightarrow> snd (handleNativeTool e ''search_and_replace'' (sar_args path rep search)
                       (snd (handleNativeTool e ''search_and_replace''
                               (sar_args path search rep) fs))) = fs)
       \<and> (\<forall>b. fs p = Some (ReadOnlyFile b)
            \<longrightarrow> snd (handleNativeTool e ''search_and_replace'' (sar_args path rep search)
                       (snd (handleNativeTool e ''search_and_replace''
                               (sar_args path search rep) fs))) = fs)"
proof (intro conjI allI impI)
  fix b
  assume "fs p = Some (File b)
              \<and> utf8_encode e (utf8_decode e b) = b
              \<and> occurs_once search (utf8_decode e b)
              \<and> rep \<noteq> []
              \<and> readFileSync e
                    (snd (handleNativeTool e ''search_and_replace'' (sar_args path search rep) fs)) p
                  = Inr (spec_replace_all search rep (utf8_decode e b))
              \<and> occurs_once rep (spec_replace_all search rep (utf8_decode e b))"
  then show "snd (handleNativeTool e ''search_and_replace'' (sar_args path rep search)
                       (snd (handleNativeTool e ''search_and_replace''
                               (sar_args path search rep) fs))) = fs"
    using round_trip_writable[of path e p fs b search rep] assms by blast
next
  fix b
  assume ro: "fs p = Some (ReadOnlyFile b)"
  have 1: "snd (handleNativeTool e ''search_and_replace'' (sar_args path search rep) fs) = fs"
    using sar_read_only_unchanged[of path e p fs b search rep] assms ro by simp
  show "snd (handleNativeTool e ''search_and_replace'' (sar_args path rep search)
                       (snd (handleNativeTool e ''search_and_replace''
                               (sar_args path search rep) fs))) = fs"
    unfolding 1 using sar_read_only_unchanged[of path e p fs b rep search] assms ro by simp
qed

text \<open>The file \<open>abc\<close>, with \<open>b\<close> replaced by \<open>xy\<close> and back.\<close>

theorem search_and_replace_round_trip_witness:
  "demo_encode (demo_decode ''abc'') = ''abc''
   \<and> occurs_once ''b'' (demo_decode ''abc'') \<and> occurs_once ''xy'' ''axyc''
   \<and> spec_replace_all ''b'' ''xy'' (demo_decode ''abc'') = ''axyc''
   \<and> readFileSync demo_env
        (snd (handleNativeTool demo_env ''search_and_replace'' (sar_args ''x.txt'' ''b'' ''xy'')
                (work_dir(''/work/x.txt'' \<mapsto> File ''abc'')))) ''/work/x.txt'' = Inr ''axyc''
   \<and> snd (handleNativeTool demo_env ''search_and_replace'' (sar_args ''x.txt'' ''xy'' ''b'')
         (snd (handleNativeTool demo_env ''search_and_replace'' (sar_args ''x.txt'' ''b'' ''xy'')
                 (work_dir(''/work/x.txt'' \<mapsto> File ''abc'')))))
     = work_dir(''/work/x.txt'' \<mapsto> File ''abc'')"
proof -
  let ?fs = "work_dir(''/work/x.txt'' \<mapsto> File ''abc'')"
  have v: "demo_encode (demo_decode ''abc'') = ''abc''" by (simp add: ascii_units)
  have d: "demo_decode ''abc'' = ''abc''" by simp
  have o1: "occurs_once ''b'' (demo_decode ''abc'')"
    unfolding d by (simp add: occurs_once_def occurrences_def)
  have o2: "occurs_once ''xy'' ''axyc''" by (simp add: occurs_once_def occurrences_def)
  have w: "spec_replace_all ''b'' ''xy'' (demo_decode ''abc'') = ''axyc''"
    unfolding d by simp
  have 1: "handleNativeTool demo_env ''search_and_replace'' (sar_args ''x.txt'' ''b'' ''xy'') ?fs =
           (Normal (JStr ''Successfully replaced text in x.txt''),
            work_dir(''/work/x.txt'' \<mapsto> File ''axyc''))"
    by (simp add: sar_strings[where path="''x.txt''" and p="''/work/x.txt''" and b="''abc''"]
                  js_split_def ascii_units)
  have r: "readFileSync demo_env
        (snd (handleNativeTool demo_env ''search_and_replace'' (sar_args ''x.txt'' ''b'' ''xy'') ?fs))
        ''/work/x.txt'' = Inr ''axyc''"
    unfolding 1 by (simp add: readFileSync_def)
  have "snd (handleNativeTool demo_env ''search_and_replace'' (sar_args ''x.txt'' ''xy'' ''b'')
         (snd (handleNativeTool demo_env ''search_and_replace'' (sar_args ''x.txt'' ''b'' ''xy'') ?fs)))
        = ?fs"
    using search_and_replace_round_trip[of "''x.txt''" demo_env "''/work/x.txt''" ?fs "''b''" "''xy''",
            THEN conjunct1] v o1 o2 w r
    by simp
  with v o1 o2 w r show ?thesis by simp
qed

section \<open>Writing and appending\<close>

text \<open>
  In the handler of the tool-calling agent, \<open>write_file\<close> with \<open>append\<close> set appends: an
  existing writable file gets the encoded text added at its end; a missing file is
  created with the text when the directory that holds its path exists, and the call
  returns an error text and creates nothing when it does not.
\<close>

lemma write_file_tool_appends:
  assumes "path \<noteq> []" "path_resolve e (cwd e) path = p" "p \<noteq> []"
  shows "(fs p = Some (File c) \<longrightarrow>
            handleNativeTool e ''write_file'' (write_args path t True) fs =
              (Normal (JStr (''Successfully appended to '' @ path)),
               fs(p \<mapsto> File (c @ utf8_encode e t))))
       \<and> (fs p = None \<and> fs (parent_of e p) = Some Directory \<longrightarrow>
            handleNativeTool e ''write_file'' (write_args path t True) fs =
              (Normal (JStr (''Successfully appended to '' @ path)),
               fs(p \<mapsto> File (utf8_encode e t))))
       \<and> (fs p = None \<and> fs (parent_of e p) = None \<longrightarrow>
            handleNativeTool e ''write_file'' (write_args path t True) fs =
              (Normal (JStr (''Error executing write_file: ''
                             @ message (ENOENT ''open'' p))), fs))"
  using assms
  by (simp add: handleNativeTool_def tool_body_def write_file_tool_def catch_all_def
                resolve_arg_def appendFileSync_def create_def)

text \<open>
  In the handlers of the two code-generating agents \<open>write_file\<close> never looks at
  \<open>append\<close>: a text that is not empty replaces the content of a writable file.
\<close>

lemma write_file_gen_overwrites:
  assumes "path \<noteq> []" "path_resolve e (cwd e) path = p" "p \<noteq> []" "fs p = Some (File c)" "t \<noteq> []"
  shows "handleNativeTool_gen e ''write_file'' (write_args path t app) fs =
           (Normal (JStr (''Successfully wrote to '' @ path)), fs(p \<mapsto> File (utf8_encode e t)))"
    and "handleNativeTool_002 e ''write_file'' (write_args path t app) fs =
           (Normal (JStr (''Successfully wrote to '' @ path)), fs(p \<mapsto> File (utf8_encode e t)))"
  using assms
  by (simp_all add: handleNativeTool_gen_def tool_body_gen_def handleNativeTool_002_def
                    tool_body_002_def write_file_overwrite_def catch_all_def
                    resolve_arg_def resolve_arg_002_def writeFileSync_def js_or_def)

lemma write_file_creates:
  assumes "path \<noteq> []" "path_resolve e (cwd e) path = p" "p \<noteq> []" "fs p = None"
      and "fs (parent_of e p) = Some Directory" "t \<noteq> []"
  shows "handleNativeTool_gen e ''write_file'' (write_args path t app) fs =
           (Normal (JStr (''Successfully wrote to '' @ path)), fs(p \<mapsto> File (utf8_encode e t)))"
    and "handleNativeTool_002 e ''write_file'' (write_args path t app) fs =
           (Normal (JStr (''Successfully wrote to '' @ path)), fs(p \<mapsto> File (utf8_encode e t)))"
  using assms
  by (simp_all add: handleNativeTool_gen_def tool_body_gen_def handleNativeTool_002_def
                    tool_body_002_def write_file_overwrite_def catch_all_def create_def
                    resolve_arg_def resolve_arg_002_def writeFileSync_def js_or_def)

text \<open>
  C7 (the code at the failing input). \<open>write_file\<close> is called twice with the path
  \<open>x.txt\<close>, the text \<open>a\<close> and \<open>append\<close> set, in a working directory without that file.
  The handler of \<open>src/unnamed/part_002\<close> answers \<open>Successfully wrote to x.txt\<close> both
  times and leaves a file holding \<open>a\<close>; so does the handler of the second file of
  \<open>src/unnamed/part_003\<close>. The handler of \<open>src/unnamed/part_001\<close> leaves \<open>aa\<close>.
\<close>

theorem write_file_append_ignored:
  "handleNativeTool_002 demo_env ''write_file'' (write_args ''x.txt'' ''a'' True) work_dir =
     (Normal (JStr ''Successfully wrote to x.txt''), work_dir(''/work/x.txt'' \<mapsto> File ''a''))
   \<and> handleNativeTool_002 demo_env ''write_file'' (write_args ''x.txt'' ''a'' True)
       (work_dir(''/work/x.txt'' \<mapsto> File ''a'')) =
     (Normal (JStr ''Successfully wrote to x.txt''), work_dir(''/work/x.txt'' \<mapsto> File ''a''))
   \<and> snd (handleNativeTool_gen demo_env ''write_file'' (write_args ''x.txt'' ''a'' True)
         (snd (handleNativeTool_gen demo_env ''write_file'' (write_args ''x.txt'' ''a'' True) work_dir)))
       ''/work/x.txt'' = Some (File ''a'')
   \<and> snd (handleNativeTool demo_env ''write_file'' (write_args ''x.txt'' ''a'' True)
         (snd (handleNativeTool demo_env ''write_file'' (write_args ''x.txt'' ''a'' True) work_dir)))
       ''/work/x.txt'' = Some (File ''aa'')"
proof -
  have n: "work_dir ''/work/x.txt'' = None" "work_dir ''/work'' = Some Directory"
    by (simp_all add: work_dir_def)
  have u: "demo_encode ''a'' = ''a''" by (simp add: ascii_units)
  have 1: "handleNativeTool_002 demo_env ''write_file'' (write_args ''x.txt'' ''a'' True) work_dir =
     (Normal (JStr ''Successfully wrote to x.txt''), work_dir(''/work/x.txt'' \<mapsto> File ''a''))"
    using write_file_creates(2)[of "''x.txt''" demo_env "''/work/x.txt''" work_dir "''a''" True] n u
    by simp
  have 2: "handleNativeTool_002 demo_env ''write_file'' (write_args ''x.txt'' ''a'' True)
       (work_dir(''/work/x.txt'' \<mapsto> File ''a'')) =
     (Normal (JStr ''Successfully wrote to x.txt''), work_dir(''/work/x.txt'' \<mapsto> File ''a''))"
    using write_file_gen_overwrites(2)[of "''x.txt''" demo_env "''/work/x.txt''"
            "work_dir(''/work/x.txt'' \<mapsto> File ''a'')" "''a''" "''a''" True] u
    by simp
  have 3: "handleNativeTool_gen demo_env ''write_file'' (write_args ''x.txt'' ''a'' True) work_dir =
     (Normal (JStr ''Successfully wrote to x.txt''), work_dir(''/work/x.txt'' \<mapsto> File ''a''))"
    using write_file_creates(1)[of "''x.txt''" demo_env "''/work/x.txt''" work_dir "''a''" True] n u
    by simp
  have 4: "handleNativeTool_gen demo_env ''write_file'' (write_args ''x.txt'' ''a'' True)
       (work_dir(''/work/x.txt'' \<mapsto> File ''a'')) =
     (Normal (JStr ''Successfully wrote to x.txt''), work_dir(''/work/x.txt'' \<mapsto> File ''a''))"
    using write_file_gen_overwrites(1)[of "''x.txt''" demo_env "''/work/x.txt''"
            "work_dir(''/work/x.txt'' \<mapsto> File ''a'')" "''a''" "''a''" True] u
    by simp
  have 5: "handleNativeTool demo_env ''write_file'' (write_args ''x.txt'' ''a'' True) work_dir =
     (Normal (JStr ''Successfully appended to x.txt''), work_dir(''/work/x.txt'' \<mapsto> File ''a''))"
    using write_file_tool_appends[of "''x.txt''" demo_env "''/work/x.txt''" work_dir _ "''a''",
            THEN conjunct2, THEN conjunct1] n u
    by simp
  have 6: "handleNativeTool demo_env ''write_file'' (write_args ''x.txt'' ''a'' True)
       (work_dir(''/work/x.txt'' \<mapsto> File ''a'')) =
     (Normal (JStr ''Successfully appended to x.txt''), work_dir(''/work/x.txt'' \<mapsto> File ''aa''))"
    using write_file_tool_appends[of "''x.txt''" demo_env "''/work/x.txt''"
            "work_dir(''/work/x.txt'' \<mapsto> File ''a'')" "''a''" "''a''", THEN conjunct1] u
    by simp
  show ?thesis unfolding 1 2 3 4 5 6 snd_conv by simp
qed

section \<open>Exceptions of the tool handler\<close>

text \<open>
  C10 (the code at the failing input). A path that is a number is truthy and not a string:
  \<open>path.resolve\<close> throws before the \<open>try\<close> block is entered, and the exception reaches
  the caller instead of becoming an error text.
\<close>

theorem handleNativeTool_throws_on_number_path:
  "handleNativeTool e ''read_file'' [''path'' \<mapsto> JNum 123] fs =
     (Throw (TypeError ''The paths[1] argument must be of type string''), fs)"
  by (simp add: handleNativeTool_def field_def resolve_arg_def)

text \<open>
  With a path that is a string, or falsy, nothing is thrown: each of the four native
  tools returns a text, and an exception inside the block becomes
  \<open>Error executing <name>: <message>\<close>.
\<close>

lemma read_file_tool_cases:
  "(\<exists>s fs'. read_file_tool e fullPath fs = (Normal (JStr s), fs'))
   \<or> (\<exists>err fs'. read_file_tool e fullPath fs = (Throw err, fs'))"
  by (simp add: read_file_tool_def split: sum.splits)

lemma search_and_replace_tool_cases:
  "(\<exists>s fs'. search_and_replace_tool e args fullPath fs = (Normal (JStr s), fs'))
   \<or> (\<exists>err fs'. search_and_replace_tool e args fullPath fs = (Throw err, fs'))"
  by (simp add: search_and_replace_tool_def Let_def split: sum.splits)

lemma write_file_tool_cases:
  "(\<exists>s fs'. write_file_tool e args fullPath fs = (Normal (JStr s), fs'))
   \<or> (\<exists>err fs'. write_file_tool e args fullPath fs = (Throw err, fs'))"
  by (simp add: write_file_tool_def split: sum.splits)

lemma run_terminal_command_tool_cases:
  "(\<exists>s fs'. run_terminal_command_tool e args fs = (Normal (JStr s), fs'))
   \<or> (\<exists>err fs'. run_terminal_command_tool e args fs = (Throw err, fs'))"
  by (simp add: run_terminal_command_tool_def Let_def split: jsval.splits prod.splits)

lemma native_tool_name_cases:
  assumes "name \<in> set NATIVE_TOOL_NAMES"
  shows "name = ''read_file'' \<or> name = ''write_file'' \<or> name = ''search_and_replace''
         \<or> name = ''run_terminal_command''"
  using assms by (simp add: NATIVE_TOOL_NAMES_def)

lemma tool_body_returns_text_or_throws:
  assumes "name \<in> set NATIVE_TOOL_NAMES"
  shows "(\<exists>s fs'. tool_body e name args fullPath fs = (Normal (JStr s), fs'))
       \<or> (\<exists>err fs'. tool_body e name args fullPath fs = (Throw err, fs'))"
proof -
  have 1: "tool_body e ''read_file'' args fullPath fs = read_file_tool e fullPath fs"
    by (simp add: tool_body_def)
  have 2: "tool_body e ''write_file'' args fullPath fs = write_file_tool e args fullPath fs"
    by (simp add: tool_body_def)
  have 3: "tool_body e ''search_and_replace'' args fullPath fs =
             search_and_replace_tool e args fullPath fs"
    by (simp add: tool_body_def)
  have 4: "tool_body e ''run_terminal_command'' args fullPath fs =
             run_terminal_command_tool e args fs"
    by (simp add: tool_body_def)
  from native_tool_name_cases[OF assms] show ?thesis
  proof (elim disjE)
    assume "name = ''read_file''"
    then show ?thesis using read_file_tool_cases[of e fullPath fs] by (simp only: 1)
  next
    assume "name = ''write_file''"
    then show ?thesis using write_file_tool_cases[of e args fullPath fs] by (simp only: 2)
  next
    assume "name = ''search_and_replace''"
    then show ?thesis using search_and_replace_tool_cases[of e args fullPath fs] by (simp only: 3)
  next
    assume "name = ''run_terminal_command''"
    then show ?thesis using run_terminal_command_tool_cases[of e args fs] by (simp only: 4)
  qed
qed

lemma catch_all_text:
  assumes "(\<exists>s fs'. r = (Normal (JStr s), fs')) \<or> (\<exists>err fs'. r = (Throw err, fs'))"
  shows "\<exists>s fs'. catch_all name r = (Normal (JStr s), fs')"
  using assms
proof
  assume "\<exists>s fs'. r = (Normal (JStr s), fs')"
  then obtain s fs' where "r = (Normal (JStr s), fs')" by blast
  then show ?thesis by (simp add: catch_all_def)
next
  assume "\<exists>err fs'. r = (Throw err, fs')"
  then obtain err fs' where "r = (Throw err, fs')" by blast
  then show ?thesis by (simp add: catch_all_def)
qed

lemma handleNativeTool_catches:
  assumes "name \<in> set NATIVE_TOOL_NAMES"
      and "(\<exists>p. field args ''path'' = JStr p) \<or> \<not> truthy (field args ''path'')"
  shows "\<exists>s fs'. handleNativeTool e name args fs = (Normal (JStr s), fs')"
proof -
  have "\<exists>fullPath. handleNativeTool e name args fs =
                     catch_all name (tool_body e name args fullPath fs)"
    using assms(2)
  proof
    assume "\<exists>p. field args ''path'' = JStr p"
    then obtain p where "field args ''path'' = JStr p" by blast
    then show ?thesis by (auto simp: handleNativeTool_def resolve_arg_def)
  next
    assume "\<not> truthy (field args ''path'')"
    then show ?thesis by (auto simp: handleNativeTool_def)
  qed
  then obtain fullPath where
    h: "handleNativeTool e name args fs = catch_all name (tool_body e name args fullPath fs)"
    by blast
  show ?thesis unfolding h
    by (rule catch_all_text) (rule tool_body_returns_text_or_throws[OF assms(1)])
qed

lemma handleNativeTool_error_text:
  assumes "field args ''path'' = JStr p" "p \<noteq> []"
      and "tool_body e name args (path_resolve e (cwd e) p) fs = (Throw err, fs')"
  shows "handleNativeTool e name args fs =
           (Normal (JStr (''Error executing '' @ name @ '': '' @ message err)), fs')"
  using assms by (simp add: handleNativeTool_def resolve_arg_def catch_all_def)
section \<open>The task router\<close>

lemma js_includes_decompose: "js_includes s sub \<longleftrightarrow> (\<exists>u v. s = u @ sub @ v)"
proof
  assume "js_includes s sub"
  then obtain i where "prefix sub (drop i s)" by (auto simp: js_includes_iff)
  then obtain v where "drop i s = sub @ v" by (auto simp: prefix_def)
  then have "s = take i s @ sub @ v" by (metis append_take_drop_id)
  then show "\<exists>u v. s = u @ sub @ v" by blast
next
  assume "\<exists>u v. s = u @ sub @ v"
  then show "js_includes s sub" by (auto simp: js_includes_middle)
qed

text \<open>
  C4 (as stated, refuted). A reply that holds neither keyword, the empty reply and the
  reply \<open>action\<close> in lower case are all classified as CHAT: the default is CHAT.
\<close>

theorem route_default_counterexample:
  "\<not> js_includes ''I am not sure.'' ''CHAT'' \<and> \<not> js_includes ''I am not sure.'' ''ACTION''
   \<and> route ''I am not sure.'' = CHAT \<and> route [] = CHAT \<and> route ''action'' = CHAT"
  by (simp add: route_def isAction_def)

text \<open>
  C4 (amended). The task is classified as ACTION exactly when the reply contains the
  literal \<open>ACTION\<close>, in upper case, at some position; every other reply is classified as
  CHAT. So a reply that names both words is an ACTION, and a reply that names neither,
  or is malformed, is a CHAT.
\<close>

theorem route_by_literal:
  "(route response = ACTION \<longleftrightarrow> (\<exists>u v. response = u @ ''ACTION'' @ v))
   \<and> (route response = CHAT \<longleftrightarrow> \<not> (\<exists>u v. response = u @ ''ACTION'' @ v))"
  unfolding route_def isAction_def js_includes_decompose[symmetric] by simp

lemma route_both_words: "route ''CHAT or ACTION'' = ACTION"
  by (simp add: route_def isAction_def)

text \<open>The classification decides whether the control loop runs at all.\<close>

lemma process_task_route:
  assumes "t_route inp = Reply c calls"
  shows "route c = CHAT \<Longrightarrow> t_chat inp = Reply a calls' \<Longrightarrow>
           process_task e cs ctx task st inp fs = Chatted a"
    and "route c = ACTION \<Longrightarrow>
           process_task e cs ctx task st inp fs =
             Looped (run_loop e cs ctx task (st\<lparr>errorLog := Some []\<rparr>) fs (t_iterations inp))"
  using assms by (auto simp: process_task_def route_def split: if_splits)

section \<open>The execution sandbox\<close>

lemma digit_value: "d < 10 \<Longrightarrow> of_char (digit d) = 48 + d"
proof -
  assume "d < 10"
  then have "d \<in> {0, 1, 2, 3, 4, 5, 6, 7, 8, 9}" by auto
  then show ?thesis by (auto simp: digit_def)
qed

lemma show_nat_value: "foldl (\<lambda>a c. 10 * a + (of_char c - 48)) 0 (show_nat n) = n"
proof (induction n rule: show_nat.induct)
  case (1 n)
  show ?case
  proof (cases "n < 10")
    case True
    then have "show_nat n = [digit n]" by (subst show_nat.simps) simp
    with True show ?thesis by (simp add: digit_value)
  next
    case False
    then have "show_nat n = show_nat (n div 10) @ [digit (n mod 10)]"
      by (subst show_nat.simps) simp
    with False 1 show ?thesis by (simp add: digit_value)
  qed
qed

lemma show_nat_inject: "show_nat a = show_nat b \<Longrightarrow> a = b"
  by (metis show_nat_value)

lemma tempFile_inject:
  assumes "\<And>a b. path_join e (cwd e) a = path_join e (cwd e) b \<Longrightarrow> a = b"
      and "tempFile e t = tempFile e t'"
  shows "t = t'"
proof -
  from assms have "''temp_exec_'' @ show_nat t @ ''.js'' = ''temp_exec_'' @ show_nat t' @ ''.js''"
    unfolding tempFile_def by blast
  then have "show_nat t = show_nat t'" by simp
  then show ?thesis by (rule show_nat_inject)
qed

lemma writeFileSync_result:
  "writeFileSync e fs p (JStr t) = Inr fs' \<Longrightarrow> fs' = fs(p \<mapsto> File (utf8_encode e t))"
  by (auto simp: writeFileSync_def create_def split: if_splits option.splits fnode.splits)

lemma writeFileSync_new:
  assumes "p \<noteq> []" "fs p = None" "fs (parent_of e p) = Some Directory"
  shows "writeFileSync e fs p (JStr t) = Inr (fs(p \<mapsto> File (utf8_encode e t)))"
  using assms by (simp add: writeFileSync_def create_def)

lemma remove_if_exists:
  assumes "fs p \<noteq> Some Directory"
  shows "\<exists>fs'. (if existsSync fs p then unlinkSync fs p else Inr fs) = Inr fs'
               \<and> fs' = fs(p := None)"
  using assms
  by (auto simp: existsSync_def unlinkSync_def split: option.splits fnode.splits)

text \<open>
  \<open>executeSegment\<close> once the segment is written and the child has returned: the
  temporary file is unlinked and the result reported, unless the child left a directory
  at the path of the file, on which \<open>unlinkSync\<close> throws.
\<close>

lemma executeSegment_run:
  assumes w: "writeFileSync e fs (tempFile e t) (JStr segment) = Inr fs1"
      and s: "spawnSync e (node_launch e (tempFile e t)) fs1 = (result, fs2)"
      and d: "fs2 (tempFile e t) \<noteq> Some Directory"
  shows "executeSegment e t segment fs =
           (Normal (if error result = Some ''ETIMEDOUT''
                    then \<lparr>exec_error = True, exec_log = Some ''Execution timed out (60s limit).''\<rparr>
                    else \<lparr>exec_error = failed result,
                          exec_log = or_else (stderr result) (stdout result)\<rparr>),
            fs2(tempFile e t := None), [node_launch e (tempFile e t)])"
proof -
  from remove_if_exists[of fs2 "tempFile e t"] d have rm:
    "(if existsSync fs2 (tempFile e t) then unlinkSync fs2 (tempFile e t) else Inr fs2)
       = Inr (fs2(tempFile e t := None))"
    by auto
  show ?thesis
    unfolding executeSegment_def Let_def w sum.case s prod.case rm by simp
qed

lemma executeSegment_unlink_throws:
  assumes w: "writeFileSync e fs (tempFile e t) (JStr segment) = Inr fs1"
      and s: "spawnSync e (node_launch e (tempFile e t)) fs1 = (result, fs2)"
      and d: "fs2 (tempFile e t) = Some Directory"
  shows "executeSegment e t segment fs =
           (Throw (EISDIR ''unlink'' (Some (tempFile e t))), fs2, [node_launch e (tempFile e t)])"
proof -
  from d have rm:
    "(if existsSync fs2 (tempFile e t) then unlinkSync fs2 (tempFile e t) else Inr fs2)
       = Inl (EISDIR ''unlink'' (Some (tempFile e t)))"
    by (simp add: existsSync_def unlinkSync_def)
  show ?thesis
    unfolding executeSegment_def Let_def w sum.case s prod.case rm by simp
qed

lemma executeSegment_unwritable:
  assumes "writeFileSync e fs (tempFile e t) (JStr segment) = Inl err"
  shows "executeSegment e t segment fs = (Throw err, fs, [])"
  using assms by (simp add: executeSegment_def Let_def)

text \<open>
  The sandbox of the code-generating agent, whenever the segment can be written: the
  child is node on the temporary file, started once, with a time-out of 60000 ms, and
  the file holds the encoded segment when it starts. Afterwards the file is gone and
  every other path is as the child left it; a time-out is reported as a failure whose
  log is the fixed text, any other result with the child's output, so an ordinary
  failure carries the log of a time-out only if the child itself printed that text. The
  name of the file is determined by the clock, different instants giving different names
  when \<open>path.join\<close> keeps different file names apart.
\<close>

lemma executeSegment_sandbox:
  assumes w: "writeFileSync e fs (tempFile e t) (JStr segment) = Inr fs1"
      and s: "spawnSync e (node_launch e (tempFile e t)) fs1 = (result, fs2)"
  shows "fs1 = fs(tempFile e t \<mapsto> File (utf8_encode e segment))"
    and "node_launch e (tempFile e t) =
           \<lparr>command = ''node'', arguments = [tempFile e t], shell = False,
            timeout_ms = Some 60000, in_dir = Some (cwd e)\<rparr>"
    and "snd (snd (executeSegment e t segment fs)) = [node_launch e (tempFile e t)]"
    and "fs2 (tempFile e t) \<noteq> Some Directory \<Longrightarrow>
           fst (snd (executeSegment e t segment fs)) = fs2(tempFile e t := None)"
    and "fs2 (tempFile e t) \<noteq> Some Directory \<Longrightarrow> error result = Some ''ETIMEDOUT'' \<Longrightarrow>
           fst (executeSegment e t segment fs) =
             Normal \<lparr>exec_error = True, exec_log = Some ''Execution timed out (60s limit).''\<rparr>"
    and "fs2 (tempFile e t) \<noteq> Some Directory \<Longrightarrow> error result \<noteq> Some ''ETIMEDOUT'' \<Longrightarrow>
           fst (executeSegment e t segment fs) =
             Normal \<lparr>exec_error = failed result,
                     exec_log = or_else (stderr result) (stdout result)\<rparr>"
    and "fs2 (tempFile e t) = Some Directory \<Longrightarrow>
           executeSegment e t segment fs =
             (Throw (EISDIR ''unlink'' (Some (tempFile e t))), fs2, [node_launch e (tempFile e t)])"
proof -
  show "fs1 = fs(tempFile e t \<mapsto> File (utf8_encode e segment))"
    using w by (rule writeFileSync_result)
  show "node_launch e (tempFile e t) =
           \<lparr>command = ''node'', arguments = [tempFile e t], shell = False,
            timeout_ms = Some 60000, in_dir = Some (cwd e)\<rparr>"
    by (simp add: node_launch_def)
  show "snd (snd (executeSegment e t segment fs)) = [node_launch e (tempFile e t)]"
  proof (cases "fs2 (tempFile e t) = Some Directory")
    case True
    then show ?thesis by (simp add: executeSegment_unlink_throws[OF w s])
  next
    case False
    then show ?thesis by (simp add: executeSegment_run[OF w s])
  qed
  show "fs2 (tempFile e t) \<noteq> Some Directory \<Longrightarrow>
           fst (snd (executeSegment e t segment fs)) = fs2(tempFile e t := None)"
    by (simp add: executeSegment_run[OF w s])
  show "fs2 (tempFile e t) \<noteq> Some Directory \<Longrightarrow> error result = Some ''ETIMEDOUT'' \<Longrightarrow>
           fst (executeSegment e t segment fs) =
             Normal \<lparr>exec_error = True, exec_log = Some ''Execution timed out (60s limit).''\<rparr>"
    by (simp add: executeSegment_run[OF w s])
  show "fs2 (tempFile e t) \<noteq> Some Directory \<Longrightarrow> error result \<noteq> Some ''ETIMEDOUT'' \<Longrightarrow>
           fst (executeSegment e t segment fs) =
             Normal \<lparr>exec_error = failed result,
                     exec_log = or_else (stderr result) (stdout result)\<rparr>"
    by (simp add: executeSegment_run[OF w s])
  show "fs2 (tempFile e t) = Some Directory \<Longrightarrow>
           executeSegment e t segment fs =
             (Throw (EISDIR ''unlink'' (Some (tempFile e t))), fs2, [node_launch e (tempFile e t)])"
    by (rule executeSegment_unlink_throws[OF w s])
qed

lemma ordinary_log_is_output:
  assumes "or_else (stderr result) (stdout result) = Some ''Execution timed out (60s limit).''"
  shows "stderr result = Some ''Execution timed out (60s limit).''
         \<or> stdout result = Some ''Execution timed out (60s limit).''"
  using assms by (auto simp: or_else_def split: if_splits)

text \<open>In a file system without the temporary file, with a child that leaves it alone.\<close>

lemma executeSegment_plain:
  assumes "tempFile e t \<noteq> []" "fs (tempFile e t) = None"
      and "fs (parent_of e (tempFile e t)) = Some Directory"
      and "spawnSync e (node_launch e (tempFile e t))
             (fs(tempFile e t \<mapsto> File (utf8_encode e segment)))
             = (result, fs(tempFile e t \<mapsto> File (utf8_encode e segment)))"
  shows "executeSegment e t segment fs =
           (Normal (if error result = Some ''ETIMEDOUT''
                    then \<lparr>exec_error = True, exec_log = Some ''Execution timed out (60s limit).''\<rparr>
                    else \<lparr>exec_error = failed result,
                          exec_log = or_else (stderr result) (stdout result)\<rparr>),
            fs, [node_launch e (tempFile e t)])"
proof -
  have w: "writeFileSync e fs (tempFile e t) (JStr segment)
             = Inr (fs(tempFile e t \<mapsto> File (utf8_encode e segment)))"
    using assms(1-3) by (rule writeFileSync_new)
  have d: "(fs(tempFile e t \<mapsto> File (utf8_encode e segment))) (tempFile e t) \<noteq> Some Directory"
    by simp
  have restore: "(fs(tempFile e t \<mapsto> File (utf8_encode e segment)))(tempFile e t := None) = fs"
    using assms(2) by (simp add: fun_upd_idem)
  show ?thesis using executeSegment_run[OF w assms(4) d] by (simp only: restore)
qed

text \<open>
  The first version of the function (\<open>index.js\<close>) starts the child without a time-out,
  on a file whose name is fixed, whatever the segment and the time.
\<close>

lemma executeSegment_basic_launch:
  "snd (snd (executeSegment_basic e segment fs)) = []
   \<or> snd (snd (executeSegment_basic e segment fs)) =
       [\<lparr>command = ''node'', arguments = [path_join e (dirname e) ''temp.js''],
         shell = False, timeout_ms = None, in_dir = None\<rparr>]"
  by (auto simp: executeSegment_basic_def Let_def split: sum.splits prod.splits if_splits)

lemma executeSegment_basic_plain:
  assumes "path_join e (dirname e) ''temp.js'' = tmp" "tmp \<noteq> []" "fs tmp = None"
      and "fs (parent_of e tmp) = Some Directory"
      and "spawnSync e \<lparr>command = ''node'', arguments = [tmp], shell = False,
                        timeout_ms = None, in_dir = None\<rparr>
             (fs(tmp \<mapsto> File (utf8_encode e segment)))
             = (result, fs(tmp \<mapsto> File (utf8_encode e segment)))"
  shows "executeSegment_basic e segment fs =
           (Normal (if failed result
                    then \<lparr>exec_error = True, exec_log = or_else (stderr result) (stdout result)\<rparr>
                    else \<lparr>exec_error = False, exec_log = stdout result\<rparr>),
            fs, [\<lparr>command = ''node'', arguments = [tmp], shell = False,
                  timeout_ms = None, in_dir = None\<rparr>])"
proof -
  have w: "writeFileSync e fs tmp (JStr segment) = Inr (fs(tmp \<mapsto> File (utf8_encode e segment)))"
    using assms(2-4) by (rule writeFileSync_new)
  have u: "unlinkSync (fs(tmp \<mapsto> File (utf8_encode e segment))) tmp = Inr fs"
    using assms(3) by (simp add: unlinkSync_def fun_upd_idem)
  show ?thesis
    unfolding executeSegment_basic_def Let_def assms(1) w sum.case assms(5) prod.case u
    by simp
qed

lemma tempFile_demo: "tempFile demo_env 7 = ''/work/temp_exec_7.js''"
  by (simp add: tempFile_def demo_env_def show_nat.simps digit_def)

lemma parent_temp [simp]:
  "posix_dirname ''/work/temp_exec_7.js'' = ''/work''"
  "posix_dirname ''/opt/agent/temp.js'' = ''/opt/agent''"
  by (simp_all add: posix_dirname_def)

text \<open>
  C8 (the code at the failing input). The segment keeps its process alive for two
  minutes and then exits without output. \<open>executeSegment\<close> of \<open>src/index.js\<close> writes it
  to the file \<open>temp.js\<close> beside the script, the name it uses for every segment, starts
  node on it without a time-out, waits the two minutes and reports a success. The
  function of the same name in \<open>src/unnamed/part_003\<close> writes the segment to a file
  named after the clock, starts node with a time-out of 60000 ms and reports the failure
  \<open>Execution timed out (60s limit).\<close>
\<close>

theorem executeSegment_basic_no_timeout:
  "executeSegment_basic slow_env ''setTimeout(() => {}, 120000)'' agent_dir =
     (Normal \<lparr>exec_error = False, exec_log = Some []\<rparr>, agent_dir,
      [\<lparr>command = ''node'', arguments = [''/opt/agent/temp.js''], shell = False,
        timeout_ms = None, in_dir = None\<rparr>])
   \<and> snd (snd (executeSegment_basic slow_env ''console.log(1)'' agent_dir)) =
      [\<lparr>command = ''node'', arguments = [''/opt/agent/temp.js''], shell = False,
        timeout_ms = None, in_dir = None\<rparr>]
   \<and> executeSegment slow_env 7 ''setTimeout(() => {}, 120000)'' work_dir =
     (Normal \<lparr>exec_error = True, exec_log = Some ''Execution timed out (60s limit).''\<rparr>, work_dir,
      [\<lparr>command = ''node'', arguments = [''/work/temp_exec_7.js''], shell = False,
        timeout_ms = Some 60000, in_dir = Some ''/work''\<rparr>])"
proof -
  have j: "path_join slow_env (dirname slow_env) ''temp.js'' = ''/opt/agent/temp.js''"
    by (simp add: slow_env_def demo_env_def)
  have p: "parent_of slow_env = posix_dirname"
    by (simp add: slow_env_def demo_env_def)
  have a: "agent_dir ''/opt/agent/temp.js'' = None" "agent_dir ''/opt/agent'' = Some Directory"
    by (simp_all add: agent_dir_def)
  have s: "\<And>fs. spawnSync slow_env \<lparr>command = ''node'', arguments = [''/opt/agent/temp.js''],
                                     shell = False, timeout_ms = None, in_dir = None\<rparr> fs
                 = (quiet, fs)"
    by (simp add: slow_env_def)
  have b: "\<And>segment. executeSegment_basic slow_env segment agent_dir =
     (Normal \<lparr>exec_error = False, exec_log = Some []\<rparr>, agent_dir,
      [\<lparr>command = ''node'', arguments = [''/opt/agent/temp.js''], shell = False,
        timeout_ms = None, in_dir = None\<rparr>])"
    using executeSegment_basic_plain[of slow_env "''/opt/agent/temp.js''" agent_dir _ quiet] j a p s
    by (simp add: quiet_def failed_def)
  have tf: "tempFile slow_env 7 = ''/work/temp_exec_7.js''"
    by (simp add: tempFile_def slow_env_def demo_env_def show_nat.simps digit_def)
  have c: "cwd slow_env = ''/work''" by (simp add: slow_env_def demo_env_def)
  have w: "work_dir ''/work/temp_exec_7.js'' = None" "work_dir ''/work'' = Some Directory"
    by (simp_all add: work_dir_def)
  have s': "\<And>fs. spawnSync slow_env (node_launch slow_env ''/work/temp_exec_7.js'') fs
                  = (timed_out, fs)"
    by (simp add: slow_env_def node_launch_def)
  have x: "executeSegment slow_env 7 ''setTimeout(() => {}, 120000)'' work_dir =
     (Normal \<lparr>exec_error = True, exec_log = Some ''Execution timed out (60s limit).''\<rparr>, work_dir,
      [node_launch slow_env ''/work/temp_exec_7.js''])"
    using executeSegment_plain[of slow_env 7 work_dir "''setTimeout(() => {}, 120000)'' " timed_out]
          w p s'
    by (simp add: tf timed_out_def)
  show ?thesis unfolding b x by (simp add: node_launch_def c)
qed
section \<open>One iteration of the code-generating loop\<close>

lemma execute_and_check_sentinel:
  assumes "js_includes seg ''PROJECT_DONE''"
  shows "execute_and_check e task st inp seg fs reqs =
           \<lparr>outcome = Exit SentinelSeen, state = st, files = fs, sent = reqs\<rparr>"
  using assms by (simp add: execute_and_check_def)

lemma execute_and_check_throw:
  assumes "\<not> js_includes seg ''PROJECT_DONE''"
      and "executeSegment e (in_now inp) seg fs = (Throw err, fs', ls)"
  shows "execute_and_check e task st inp seg fs reqs =
           \<lparr>outcome = Crash err, state = st, files = fs', sent = reqs\<rparr>"
  using assms by (simp add: execute_and_check_def)

lemma execute_and_check_failure:
  assumes "\<not> js_includes seg ''PROJECT_DONE''"
      and "executeSegment e (in_now inp) seg fs = (Normal res, fs', ls)"
      and "exec_error res"
  shows "execute_and_check e task st inp seg fs reqs =
           \<lparr>outcome = Continue, state = st\<lparr>errorLog := exec_log res\<rparr>, files = fs', sent = reqs\<rparr>"
  using assms by (simp add: execute_and_check_def)

lemma execute_and_check_success:
  assumes "\<not> js_includes seg ''PROJECT_DONE''"
      and "executeSegment e (in_now inp) seg fs = (Normal res, fs', ls)"
      and "\<not> exec_error res"
  shows "state (execute_and_check e task st inp seg fs reqs) =
           st\<lparr>progressLog := progressLog st @ nl @ ''Code: '' @ seg @ nl @ ''Output: ''
                                @ template e (exec_log res),
              errorLog := Some []\<rparr>"
    and "files (execute_and_check e task st inp seg fs reqs) = fs'"
    and "outcome (execute_and_check e task st inp seg fs reqs) =
           (case in_check inp of
              Failed err \<Rightarrow> Crash err
            | Reply c calls \<Rightarrow>
                if js_includes (toLowerCase c) ''yes'' then Exit CheckSaidYes else Continue)"
  using assms by (simp_all add: execute_and_check_def Let_def split: reply.splits)

lemma execute_and_check_summary:
  "projectStateSummary (state (execute_and_check e task st inp seg fs reqs)) = projectStateSummary st"
proof (cases "js_includes seg ''PROJECT_DONE''")
  case True
  then show ?thesis by (simp add: execute_and_check_sentinel)
next
  case False
  obtain comp fs' ls where x: "executeSegment e (in_now inp) seg fs = (comp, fs', ls)"
    by (cases "executeSegment e (in_now inp) seg fs") auto
  show ?thesis
  proof (cases comp)
    case (Throw err)
    with False x show ?thesis by (simp add: execute_and_check_throw)
  next
    case (Normal res)
    show ?thesis
    proof (cases "exec_error res")
      case True
      with False x Normal show ?thesis by (simp add: execute_and_check_failure)
    next
      case ok: False
      with False x Normal show ?thesis by (simp add: execute_and_check_success(1))
    qed
  qed
qed

lemma execute_and_check_sent:
  "\<exists>more. sent (execute_and_check e task st inp seg fs reqs) = reqs @ more"
  by (auto simp: execute_and_check_def Let_def split: prod.splits completion.splits reply.splits)

lemma outer_iteration_with_segment:
  assumes "iteration_segment e cs ctx task st inp fs = Some (seg, fs1)"
  obtains err c calls reqs where
    "errorLog st = Some err" "in_summary inp = Reply c calls"
    "outer_iteration e cs ctx task st inp fs =
       execute_and_check e task (st\<lparr>projectStateSummary := trim c\<rparr>) inp seg fs1
         (summary_request ctx (progressLog st) err (projectStateSummary st) # reqs)"
proof -
  from assms obtain err where err: "errorLog st = Some err"
    by (auto simp: iteration_segment_def split: option.splits)
  from assms err obtain c calls where c: "in_summary inp = Reply c calls"
    by (auto simp: iteration_segment_def split: reply.splits)
  obtain out fs' reqs where
    g: "generation_turn e cs ctx task (trim c) err (in_generate inp) fs = (out, fs', reqs)"
    by (cases "generation_turn e cs ctx task (trim c) err (in_generate inp) fs") auto
  from assms err c g have "out = Final seg" "fs' = fs1"
    by (auto simp: iteration_segment_def split: gen_outcome.splits)
  with err c g have
    "outer_iteration e cs ctx task st inp fs =
       execute_and_check e task (st\<lparr>projectStateSummary := trim c\<rparr>) inp seg fs1
         (summary_request ctx (progressLog st) err (projectStateSummary st) # reqs)"
    by (simp add: outer_iteration_def Let_def)
  with err c show ?thesis by (rule that)
qed

lemma outer_iteration_without_segment:
  assumes "iteration_segment e cs ctx task st inp fs = None"
  shows "(\<exists>err. outcome (outer_iteration e cs ctx task st inp fs) = Crash err)
          \<or> outcome (outer_iteration e cs ctx task st inp fs) = Waiting"
    and "progressLog (state (outer_iteration e cs ctx task st inp fs)) = progressLog st"
    and "errorLog (state (outer_iteration e cs ctx task st inp fs)) = errorLog st"
  using assms
  by (auto simp: iteration_segment_def outer_iteration_def Let_def
           split: option.splits reply.splits prod.splits gen_outcome.splits)

text \<open>The five ways an iteration can go, with what each does to the two logs.\<close>

lemma iteration_cases [case_names no_segment sentinel crashed failure success]:
  obtains
    (no_segment)
      "iteration_segment e cs ctx task st inp fs = None"
      "iteration_execution e cs ctx task st inp fs = None"
      "(\<exists>err. outcome (outer_iteration e cs ctx task st inp fs) = Crash err)
        \<or> outcome (outer_iteration e cs ctx task st inp fs) = Waiting"
      "progressLog (state (outer_iteration e cs ctx task st inp fs)) = progressLog st"
      "errorLog (state (outer_iteration e cs ctx task st inp fs)) = errorLog st"
  | (sentinel) seg fs1 where
      "iteration_segment e cs ctx task st inp fs = Some (seg, fs1)"
      "js_includes seg ''PROJECT_DONE''"
      "iteration_execution e cs ctx task st inp fs = None"
      "outcome (outer_iteration e cs ctx task st inp fs) = Exit SentinelSeen"
      "progressLog (state (outer_iteration e cs ctx task st inp fs)) = progressLog st"
      "errorLog (state (outer_iteration e cs ctx task st inp fs)) = errorLog st"
  | (crashed) seg fs1 err where
      "iteration_segment e cs ctx task st inp fs = Some (seg, fs1)"
      "\<not> js_includes seg ''PROJECT_DONE''"
      "iteration_execution e cs ctx task st inp fs = None"
      "outcome (outer_iteration e cs ctx task st inp fs) = Crash err"
      "progressLog (state (outer_iteration e cs ctx task st inp fs)) = progressLog st"
      "errorLog (state (outer_iteration e cs ctx task st inp fs)) = errorLog st"
  | (failure) seg fs1 res where
      "iteration_segment e cs ctx task st inp fs = Some (seg, fs1)"
      "\<not> js_includes seg ''PROJECT_DONE''"
      "iteration_execution e cs ctx task st inp fs = Some res"
      "exec_error res"
      "outcome (outer_iteration e cs ctx task st inp fs) = Continue"
      "progressLog (state (outer_iteration e cs ctx task st inp fs)) = progressLog st"
      "errorLog (state (outer_iteration e cs ctx task st inp fs)) = exec_log res"
  | (success) seg fs1 res where
      "iteration_segment e cs ctx task st inp fs = Some (seg, fs1)"
      "\<not> js_includes seg ''PROJECT_DONE''"
      "iteration_execution e cs ctx task st inp fs = Some res"
      "\<not> exec_error res"
      "outcome (outer_iteration e cs ctx task st inp fs) =
         (case in_check inp of
            Failed err \<Rightarrow> Crash err
          | Reply c calls \<Rightarrow>
              if js_includes (toLowerCase c) ''yes'' then Exit CheckSaidYes else Continue)"
      "progressLog (state (outer_iteration e cs ctx task st inp fs)) =
         progressLog st @ nl @ ''Code: '' @ seg @ nl @ ''Output: '' @ template e (exec_log res)"
      "errorLog (state (outer_iteration e cs ctx task st inp fs)) = Some []"
proof (cases "iteration_segment e cs ctx task st inp fs")
  case None
  then have ie: "iteration_execution e cs ctx task st inp fs = None"
    by (simp add: iteration_execution_def)
  from None ie outer_iteration_without_segment[OF None] show ?thesis by (rule no_segment)
next
  case (Some p)
  obtain seg fs1 where p: "p = (seg, fs1)" by (cases p) auto
  with Some have s: "iteration_segment e cs ctx task st inp fs = Some (seg, fs1)" by simp
  from s obtain err c calls reqs where
    o: "outer_iteration e cs ctx task st inp fs =
       execute_and_check e task (st\<lparr>projectStateSummary := trim c\<rparr>) inp seg fs1
         (summary_request ctx (progressLog st) err (projectStateSummary st) # reqs)"
    by (rule outer_iteration_with_segment)
  show ?thesis
  proof (cases "js_includes seg ''PROJECT_DONE''")
    case True
    from s True have "iteration_execution e cs ctx task st inp fs = None"
      by (simp add: iteration_execution_def)
    with s True show ?thesis
      by (rule sentinel) (simp_all add: o execute_and_check_sentinel[OF True])
  next
    case False
    obtain comp fs2 ls where x: "executeSegment e (in_now inp) seg fs1 = (comp, fs2, ls)"
      by (cases "executeSegment e (in_now inp) seg fs1") auto
    show ?thesis
    proof (cases comp)
      case (Throw err')
      with x have x': "executeSegment e (in_now inp) seg fs1 = (Throw err', fs2, ls)" by simp
      from s False x' have "iteration_execution e cs ctx task st inp fs = None"
        by (simp add: iteration_execution_def)
      with s False show ?thesis
        by (rule crashed) (simp_all add: o execute_and_check_throw[OF False x'])
    next
      case (Normal res)
      with x have x': "executeSegment e (in_now inp) seg fs1 = (Normal res, fs2, ls)" by simp
      from s False x' have ie: "iteration_execution e cs ctx task st inp fs = Some res"
        by (simp add: iteration_execution_def)
      show ?thesis
      proof (cases "exec_error res")
        case True
        with s False ie show ?thesis
          by (rule failure) (simp_all add: o execute_and_check_failure[OF False x' True])
      next
        case ok: False
        with s False ie show ?thesis
          by (rule success) (simp_all add: o execute_and_check_success[OF False x' ok])
      qed
    qed
  qed
qed

section \<open>Concrete iterations\<close>

lemma trim_plain:
  assumes "s \<noteq> []" "\<not> js_whitespace (hd s)" "\<not> js_whitespace (last s)"
  shows "trim s = s"
proof -
  from assms(1) obtain x xs where s: "s = x # xs" by (cases s) auto
  with assms(2) have 1: "dropWhile js_whitespace s = s" by simp
  from assms(1) obtain y ys where r: "rev s = y # ys" by (cases "rev s") auto
  then have "y = last s" by (metis assms(1) hd_rev list.sel(1))
  with assms(3) have "dropWhile js_whitespace (y # ys) = y # ys" by simp
  then have 2: "dropWhile js_whitespace (rev s) = rev s" by (simp only: r)
  show ?thesis by (simp add: trim_def 1 2)
qed

lemma iteration_segment_direct:
  assumes "errorLog st = Some err"
  shows "iteration_segment e cs ctx task st (reply_with summary segment answer) fs
           = Some (trim segment, fs)"
  using assms
  by (simp add: iteration_segment_def reply_with_def generation_turn_def)

lemma in_check_reply_with [simp]: "in_check (reply_with summary segment answer) = Reply answer []"
  by (simp add: reply_with_def)

lemma in_now_reply_with [simp]: "in_now (reply_with summary segment answer) = 7"
  by (simp add: reply_with_def)

lemma tempFile_failing: "tempFile failing_env 7 = ''/work/temp_exec_7.js''"
  by (simp add: tempFile_def failing_env_def demo_env_def show_nat.simps digit_def)

lemma work_dir_temp [simp]:
  "work_dir ''/work/temp_exec_7.js'' = None" "work_dir ''/work'' = Some Directory"
  by (simp_all add: work_dir_def)

lemma executeSegment_demo:
  "executeSegment demo_env 7 seg work_dir =
     (Normal \<lparr>exec_error = False, exec_log = Some []\<rparr>, work_dir,
      [node_launch demo_env (tempFile demo_env 7)])"
proof -
  have s: "\<And>fs. spawnSync demo_env (node_launch demo_env (tempFile demo_env 7)) fs = (quiet, fs)"
    by (simp add: demo_env_def)
  have p: "parent_of demo_env = posix_dirname" by (simp add: demo_env_def)
  from executeSegment_plain[of demo_env 7 work_dir seg quiet] s p
  show ?thesis by (simp add: tempFile_demo quiet_def failed_def or_else_def nonempty_def)
qed

lemma executeSegment_failing:
  "executeSegment failing_env 7 seg work_dir =
     (Normal \<lparr>exec_error = True, exec_log = Some []\<rparr>, work_dir,
      [node_launch failing_env (tempFile failing_env 7)])"
proof -
  have s: "\<And>fs. spawnSync failing_env (node_launch failing_env (tempFile failing_env 7)) fs
                 = (silent_failure, fs)"
    by (simp add: failing_env_def)
  have p: "parent_of failing_env = posix_dirname" by (simp add: failing_env_def demo_env_def)
  from executeSegment_plain[of failing_env 7 work_dir seg silent_failure] s p
  show ?thesis
    by (simp add: tempFile_failing silent_failure_def failed_def or_else_def nonempty_def)
qed

lemma iteration_execution_direct:
  assumes "errorLog st = Some err" "\<not> js_includes (trim segment) ''PROJECT_DONE''"
      and "executeSegment e 7 (trim segment) fs = (Normal res, fs', ls)"
  shows "iteration_execution e cs ctx task st (reply_with summary segment answer) fs = Some res"
  using assms by (simp add: iteration_execution_def iteration_segment_direct)

section \<open>How the loop is left\<close>

lemma outer_iteration_sentinel:
  assumes "iteration_segment e cs ctx task st inp fs = Some (seg, fs1)"
      and "js_includes seg ''PROJECT_DONE''"
  shows "outcome (outer_iteration e cs ctx task st inp fs) = Exit SentinelSeen"
  using assms by (cases rule: iteration_cases[of e cs ctx task st inp fs]) simp_all

lemma outer_iteration_failure:
  assumes "iteration_execution e cs ctx task st inp fs = Some res" "exec_error res"
  shows "outcome (outer_iteration e cs ctx task st inp fs) = Continue"
    and "progressLog (state (outer_iteration e cs ctx task st inp fs)) = progressLog st"
    and "errorLog (state (outer_iteration e cs ctx task st inp fs)) = exec_log res"
  using assms by (cases rule: iteration_cases[of e cs ctx task st inp fs]; simp)+

lemma outer_iteration_success:
  assumes "iteration_execution e cs ctx task st inp fs = Some res" "\<not> exec_error res"
  shows "outcome (outer_iteration e cs ctx task st inp fs) =
           (case in_check inp of
              Failed err \<Rightarrow> Crash err
            | Reply c calls \<Rightarrow>
                if js_includes (toLowerCase c) ''yes'' then Exit CheckSaidYes else Continue)"
    and "errorLog (state (outer_iteration e cs ctx task st inp fs)) = Some []"
  using assms by (cases rule: iteration_cases[of e cs ctx task st inp fs]; simp)+

lemma exit_causes:
  assumes "outcome (outer_iteration e cs ctx task st inp fs) = Exit reason"
  shows "(reason = SentinelSeen
           \<and> (\<exists>seg fs1. iteration_segment e cs ctx task st inp fs = Some (seg, fs1)
                        \<and> js_includes seg ''PROJECT_DONE''))
       \<or> (reason = CheckSaidYes
           \<and> (\<exists>ok a calls. iteration_execution e cs ctx task st inp fs = Some ok
                          \<and> \<not> exec_error ok \<and> in_check inp = Reply a calls
                          \<and> js_includes (toLowerCase a) ''yes''))"
proof (cases rule: iteration_cases[of e cs ctx task st inp fs])
  case no_segment
  with assms show ?thesis by auto
next
  case (sentinel seg fs1)
  with assms show ?thesis by auto
next
  case (crashed seg fs1 err)
  with assms show ?thesis by auto
next
  case (failure seg fs1 res)
  with assms show ?thesis by auto
next
  case (success seg fs1 res)
  show ?thesis
  proof (cases "in_check inp")
    case (Failed ex)
    with success(5) assms show ?thesis by simp
  next
    case (Reply a calls)
    with success(5) assms have "js_includes (toLowerCase a) ''yes''" "reason = CheckSaidYes"
      by (auto split: if_splits)
    with success(3,4) Reply show ?thesis by blast
  qed
qed

text \<open>
  An iteration leaves the loop exactly when one of the two conditions holds, with the
  matching reason.
\<close>

lemma outcome_exit_iff:
  "outcome (outer_iteration e cs ctx task st inp fs) = Exit reason
   \<longleftrightarrow> exits_by e cs ctx task st inp fs reason"
proof
  assume "outcome (outer_iteration e cs ctx task st inp fs) = Exit reason"
  from exit_causes[OF this] show "exits_by e cs ctx task st inp fs reason"
    by (auto simp: exits_by_def)
next
  assume x: "exits_by e cs ctx task st inp fs reason"
  show "outcome (outer_iteration e cs ctx task st inp fs) = Exit reason"
  proof (cases reason)
    case SentinelSeen
    with x obtain seg fs1 where "iteration_segment e cs ctx task st inp fs = Some (seg, fs1)"
      "js_includes seg ''PROJECT_DONE''"
      by (auto simp: exits_by_def split: option.splits)
    with SentinelSeen show ?thesis by (simp add: outer_iteration_sentinel)
  next
    case CheckSaidYes
    with x obtain res a calls where r: "iteration_execution e cs ctx task st inp fs = Some res"
      "\<not> exec_error res" and c: "in_check inp = Reply a calls" "js_includes (toLowerCase a) ''yes''"
      by (auto simp: exits_by_def split: option.splits reply.splits)
    from outer_iteration_success(1)[OF r] c CheckSaidYes show ?thesis by simp
  qed
qed

lemma basic_outcome_exit_iff:
  "outcome (outer_iteration_basic e ctx mp st inp fs) = Exit reason
   \<longleftrightarrow> basic_exits_by e inp fs reason"
proof (cases reason)
  case SentinelSeen
  then show ?thesis
    by (auto simp: outer_iteration_basic_def basic_exits_by_def Let_def
             split: reply.splits prod.splits completion.splits if_splits)
next
  case CheckSaidYes
  then show ?thesis
    by (auto simp: outer_iteration_basic_def basic_exits_by_def basic_execution_def Let_def
             split: reply.splits prod.splits completion.splits if_splits)
qed

text \<open>
  The pending error takes no part in how an iteration ends: it is sent to the backend
  inside the prompts, and the replies, the tools and the child decide the rest.
\<close>

lemma generate_result_independent:
  "fst (generate e cs ctx m rs fs) = fst (generate e cs ctx m' rs fs)
   \<and> fst (snd (generate e cs ctx m rs fs)) = fst (snd (generate e cs ctx m' rs fs))"
proof (induction rs arbitrary: m m' fs)
  case Nil
  show ?case by simp
next
  case (Cons r rs)
  show ?case
  proof (cases r)
    case (Failed err)
    then show ?thesis by simp
  next
    case (Reply c calls)
    show ?thesis
    proof (cases "calls = []")
      case True
      with Reply show ?thesis by simp
    next
      case False
      obtain comp fs' where d: "dispatch_all e cs calls fs = (comp, fs')"
        by (cases "dispatch_all e cs calls fs") auto
      show ?thesis
      proof (cases comp)
        case (Throw err)
        with Reply False d show ?thesis by simp
      next
        case (Normal ms)
        let ?a = "\<lparr>msg_role = Assistant, msg_content = c, msg_calls = calls, msg_name = None\<rparr>"
        note ih = Cons.IH[of "m @ [?a] @ ms" fs' "m' @ [?a] @ ms"]
        from Reply False d Normal ih show ?thesis
          by (simp add: split_beta)
      qed
    qed
  qed
qed

lemma execute_and_check_outcome:
  "outcome (execute_and_check e task st inp seg fs reqs)
     = outcome (execute_and_check e task st' inp seg fs reqs')"
  by (simp add: execute_and_check_def Let_def
           split: prod.splits completion.splits reply.splits)

lemma outer_iteration_pending:
  assumes "errorLog st = Some err"
  shows "outcome (outer_iteration e cs ctx task (st\<lparr>errorLog := Some err'\<rparr>) inp fs)
           = outcome (outer_iteration e cs ctx task st inp fs)"
proof (cases "in_summary inp")
  case (Failed ex)
  with assms show ?thesis by (simp add: outer_iteration_def Let_def)
next
  case (Reply c calls)
  let ?m = "[msg System systemPromptGenerate, msg User (fullPrompt task (trim c) err)]"
  let ?m' = "[msg System systemPromptGenerate, msg User (fullPrompt task (trim c) err')]"
  obtain out fs1 reqs where g: "generate e cs ctx ?m (in_generate inp) fs = (out, fs1, reqs)"
    by (cases "generate e cs ctx ?m (in_generate inp) fs") auto
  obtain out' fs1' reqs' where g': "generate e cs ctx ?m' (in_generate inp) fs = (out', fs1', reqs')"
    by (cases "generate e cs ctx ?m' (in_generate inp) fs") auto
  from generate_result_independent[of e cs ctx ?m "in_generate inp" fs ?m'] g g'
  have same: "out' = out" "fs1' = fs1" by simp_all
  show ?thesis
  proof (cases out)
    case (Final seg)
    with assms Reply g g' same show ?thesis
      by (simp add: outer_iteration_def generation_turn_def Let_def)
         (rule execute_and_check_outcome)
  next
    case (GenThrow ex)
    with assms Reply g g' same show ?thesis
      by (simp add: outer_iteration_def generation_turn_def Let_def)
  next
    case Awaiting
    with assms Reply g g' same show ?thesis
      by (simp add: outer_iteration_def generation_turn_def Let_def)
  qed
qed

lemma outer_iteration_basic_pending:
  "outcome (outer_iteration_basic e ctx mp (st\<lparr>errorLog := err'\<rparr>) inp fs)
     = outcome (outer_iteration_basic e ctx mp st inp fs)"
  by (simp add: outer_iteration_basic_def Let_def
           split: reply.splits prod.splits completion.splits)

text \<open>
  A run is left by an exit exactly when, after some number of iterations that all
  continued, an iteration leaves.
\<close>

lemma run_loop_append:
  assumes "run_loop e cs ctx task st fs xs = Running st0 fs0"
  shows "run_loop e cs ctx task st fs (xs @ ys) = run_loop e cs ctx task st0 fs0 ys"
  using assms
proof (induction xs arbitrary: st fs)
  case Nil
  then show ?case by simp
next
  case (Cons x xs)
  then show ?case
    by (cases "outcome (outer_iteration e cs ctx task st x fs)") (simp_all add: Let_def)
qed

lemma run_loop_exit_iff:
  "(\<exists>st' fs'. run_loop e cs ctx task st fs inps = Exited reason st' fs') \<longleftrightarrow>
   (\<exists>k st0 fs0. k < length inps
       \<and> run_loop e cs ctx task st fs (take k inps) = Running st0 fs0
       \<and> outcome (outer_iteration e cs ctx task st0 (inps ! k) fs0) = Exit reason)"
proof
  assume "\<exists>st' fs'. run_loop e cs ctx task st fs inps = Exited reason st' fs'"
  then obtain st' fs' where "run_loop e cs ctx task st fs inps = Exited reason st' fs'" by blast
  then show "\<exists>k st0 fs0. k < length inps
       \<and> run_loop e cs ctx task st fs (take k inps) = Running st0 fs0
       \<and> outcome (outer_iteration e cs ctx task st0 (inps ! k) fs0) = Exit reason"
  proof (induction inps arbitrary: st fs)
    case Nil
    then show ?case by simp
  next
    case (Cons inp inps)
    let ?r = "outer_iteration e cs ctx task st inp fs"
    show ?case
    proof (cases "outcome ?r")
      case Continue
      with Cons.prems have "run_loop e cs ctx task (state ?r) (files ?r) inps = Exited reason st' fs'"
        by (simp add: Let_def)
      from Cons.IH[OF this] obtain k st0 fs0 where k: "k < length inps"
        and run: "run_loop e cs ctx task (state ?r) (files ?r) (take k inps) = Running st0 fs0"
        and cause: "outcome (outer_iteration e cs ctx task st0 (inps ! k) fs0) = Exit reason"
        by blast
      from k have 1: "Suc k < length (inp # inps)" by simp
      from run Continue have 2:
        "run_loop e cs ctx task st fs (take (Suc k) (inp # inps)) = Running st0 fs0"
        by (simp add: Let_def)
      from cause have 3:
        "outcome (outer_iteration e cs ctx task st0 ((inp # inps) ! Suc k) fs0) = Exit reason"
        by simp
      from 1 2 3 show ?thesis by blast
    next
      case (Exit reason')
      with Cons.prems have "reason' = reason" by (simp add: Let_def)
      with Exit have 3: "outcome (outer_iteration e cs ctx task st ((inp # inps) ! 0) fs) = Exit reason"
        by simp
      have 1: "0 < length (inp # inps)" by simp
      have 2: "run_loop e cs ctx task st fs (take 0 (inp # inps)) = Running st fs" by simp
      from 1 2 3 show ?thesis by blast
    next
      case (Crash err)
      with Cons.prems show ?thesis by (simp add: Let_def)
    next
      case Waiting
      with Cons.prems show ?thesis by (simp add: Let_def)
    qed
  qed
next
  assume "\<exists>k st0 fs0. k < length inps
       \<and> run_loop e cs ctx task st fs (take k inps) = Running st0 fs0
       \<and> outcome (outer_iteration e cs ctx task st0 (inps ! k) fs0) = Exit reason"
  then obtain k st0 fs0 where k: "k < length inps"
    and run: "run_loop e cs ctx task st fs (take k inps) = Running st0 fs0"
    and x: "outcome (outer_iteration e cs ctx task st0 (inps ! k) fs0) = Exit reason"
    by blast
  from k have "inps = take k inps @ (inps ! k) # drop (Suc k) inps"
    by (simp add: id_take_nth_drop)
  then have "run_loop e cs ctx task st fs inps
               = run_loop e cs ctx task st0 fs0 ((inps ! k) # drop (Suc k) inps)"
    using run_loop_append[OF run, of "(inps ! k) # drop (Suc k) inps"] by simp
  with x show "\<exists>st' fs'. run_loop e cs ctx task st fs inps = Exited reason st' fs'"
    by (simp add: Let_def)
qed

lemma run_loop_basic_append:
  assumes "run_loop_basic e ctx mp st fs xs = Running st0 fs0"
  shows "run_loop_basic e ctx mp st fs (xs @ ys) = run_loop_basic e ctx mp st0 fs0 ys"
  using assms
proof (induction xs arbitrary: st fs)
  case Nil
  then show ?case by simp
next
  case (Cons x xs)
  then show ?case
    by (cases "outcome (outer_iteration_basic e ctx mp st x fs)") (simp_all add: Let_def)
qed

lemma run_loop_basic_exit_iff:
  "(\<exists>st' fs'. run_loop_basic e ctx mp st fs inps = Exited reason st' fs') \<longleftrightarrow>
   (\<exists>k st0 fs0. k < length inps
       \<and> run_loop_basic e ctx mp st fs (take k inps) = Running st0 fs0
       \<and> outcome (outer_iteration_basic e ctx mp st0 (inps ! k) fs0) = Exit reason)"
proof
  assume "\<exists>st' fs'. run_loop_basic e ctx mp st fs inps = Exited reason st' fs'"
  then obtain st' fs' where "run_loop_basic e ctx mp st fs inps = Exited reason st' fs'" by blast
  then show "\<exists>k st0 fs0. k < length inps
       \<and> run_loop_basic e ctx mp st fs (take k inps) = Running st0 fs0
       \<and> outcome (outer_iteration_basic e ctx mp st0 (inps ! k) fs0) = Exit reason"
  proof (induction inps arbitrary: st fs)
    case Nil
    then show ?case by simp
  next
    case (Cons inp inps)
    let ?r = "outer_iteration_basic e ctx mp st inp fs"
    show ?case
    proof (cases "outcome ?r")
      case Continue
      with Cons.prems have "run_loop_basic e ctx mp (state ?r) (files ?r) inps = Exited reason st' fs'"
        by (simp add: Let_def)
      from Cons.IH[OF this] obtain k st0 fs0 where k: "k < length inps"
        and run: "run_loop_basic e ctx mp (state ?r) (files ?r) (take k inps) = Running st0 fs0"
        and cause: "outcome (outer_iteration_basic e ctx mp st0 (inps ! k) fs0) = Exit reason"
        by blast
      from k have 1: "Suc k < length (inp # inps)" by simp
      from run Continue have 2:
        "run_loop_basic e ctx mp st fs (take (Suc k) (inp # inps)) = Running st0 fs0"
        by (simp add: Let_def)
      from cause have 3:
        "outcome (outer_iteration_basic e ctx mp st0 ((inp # inps) ! Suc k) fs0) = Exit reason"
        by simp
      from 1 2 3 show ?thesis by blast
    next
      case (Exit reason')
      with Cons.prems have "reason' = reason" by (simp add: Let_def)
      with Exit have 3:
        "outcome (outer_iteration_basic e ctx mp st ((inp # inps) ! 0) fs) = Exit reason"
        by simp
      have 1: "0 < length (inp # inps)" by simp
      have 2: "run_loop_basic e ctx mp st fs (take 0 (inp # inps)) = Running st fs" by simp
      from 1 2 3 show ?thesis by blast
    next
      case (Crash err)
      with Cons.prems show ?thesis by (simp add: Let_def)
    next
      case Waiting
      with Cons.prems show ?thesis by (simp add: Let_def)
    qed
  qed
next
  assume "\<exists>k st0 fs0. k < length inps
       \<and> run_loop_basic e ctx mp st fs (take k inps) = Running st0 fs0
       \<and> outcome (outer_iteration_basic e ctx mp st0 (inps ! k) fs0) = Exit reason"
  then obtain k st0 fs0 where k: "k < length inps"
    and run: "run_loop_basic e ctx mp st fs (take k inps) = Running st0 fs0"
    and x: "outcome (outer_iteration_basic e ctx mp st0 (inps ! k) fs0) = Exit reason"
    by blast
  from k have "inps = take k inps @ (inps ! k) # drop (Suc k) inps"
    by (simp add: id_take_nth_drop)
  then have "run_loop_basic e ctx mp st fs inps
               = run_loop_basic e ctx mp st0 fs0 ((inps ! k) # drop (Suc k) inps)"
    using run_loop_basic_append[OF run, of "(inps ! k) # drop (Suc k) inps"] by simp
  with x show "\<exists>st' fs'. run_loop_basic e ctx mp st fs inps = Exited reason st' fs'"
    by (simp add: Let_def)
qed

text \<open>
  C1 (as stated, refuted). Both iterations start with a pending error in \<open>ErrorLog\<close>.
  In the first the generated segment holds the sentinel and the loop is left; in the
  second the segment runs without error, the completion check answers \<open>Yes.\<close> and the
  loop is left as well. Neither exit check looks at the pending error.
\<close>

theorem pending_error_exit_counterexample:
  "nonempty (errorLog pending_state)
   \<and> outcome (outer_iteration demo_env [] 8192 ''build it'' pending_state
                 (reply_with ''nothing yet'' ''PROJECT_DONE'' ''no'') work_dir)
       = Exit SentinelSeen
   \<and> outcome (outer_iteration demo_env [] 8192 ''build it'' pending_state
                 (reply_with ''nothing yet'' ''console.log(1)'' ''Yes.'') work_dir)
       = Exit CheckSaidYes"
proof -
  have e: "errorLog pending_state = Some ''ReferenceError: x is not defined''"
    by (simp add: pending_state_def)
  have 1: "outcome (outer_iteration demo_env [] 8192 ''build it'' pending_state
                 (reply_with ''nothing yet'' ''PROJECT_DONE'' ''no'') work_dir)
       = Exit SentinelSeen"
    by (rule outer_iteration_sentinel[OF iteration_segment_direct[OF e]])
       (simp add: trim_def js_whitespace_def)
  have t: "trim ''console.log(1)'' = ''console.log(1)''"
    by (simp add: trim_def js_whitespace_def)
  have x: "iteration_execution demo_env [] 8192 ''build it'' pending_state
             (reply_with ''nothing yet'' ''console.log(1)'' ''Yes.'') work_dir
           = Some \<lparr>exec_error = False, exec_log = Some []\<rparr>"
    by (rule iteration_execution_direct[OF e]) (simp_all add: t executeSegment_demo)
  have 2: "outcome (outer_iteration demo_env [] 8192 ''build it'' pending_state
                 (reply_with ''nothing yet'' ''console.log(1)'' ''Yes.'') work_dir)
       = Exit CheckSaidYes"
    by (simp add: outer_iteration_success(1)[OF x] toLowerCase_def lower_char_def)
  from e 1 2 show ?thesis by (simp add: nonempty_def)
qed

text \<open>
  C1 (amended). A run of either loop is left by an exit exactly when, after some number
  of iterations that all continued, an iteration meets one of two conditions. In the
  loop of the code-generating agent: the final content of the generation turn contains
  \<open>PROJECT_DONE\<close>; or the segment was executed without error and the reply to the
  completion check contains \<open>yes\<close> in some case. In the loop of the first agent: the
  trimmed reply to the generation request is \<open>PROJECT_DONE\<close>; or the segment was
  executed without error and the reply to the completion check, trimmed and in lower
  case, is \<open>yes\<close>. An iteration that meets a condition leaves the loop, whatever
  \<open>ErrorLog\<close> holds: a pending error suppresses neither exit, and an iteration ends in
  the same way with it and without it. The check is made only in an iteration whose own
  execution succeeded.
\<close>

theorem loop_exits_by_sentinel_or_check:
  "((\<exists>st' fs'. run_loop e cs ctx task st fs inps = Exited reason st' fs') \<longleftrightarrow>
      (\<exists>k st0 fs0. k < length inps
          \<and> run_loop e cs ctx task st fs (take k inps) = Running st0 fs0
          \<and> exits_by e cs ctx task st0 (inps ! k) fs0 reason))
   \<and> ((\<exists>st' fs'. run_loop_basic e ctx mp st fs binps = Exited reason st' fs') \<longleftrightarrow>
      (\<exists>k st0 fs0. k < length binps
          \<and> run_loop_basic e ctx mp st fs (take k binps) = Running st0 fs0
          \<and> basic_exits_by e (binps ! k) fs0 reason))
   \<and> (outcome (outer_iteration e cs ctx task st inp fs) = Exit reason
        \<longleftrightarrow> exits_by e cs ctx task st inp fs reason)
   \<and> (outcome (outer_iteration_basic e ctx mp st binp fs) = Exit reason
        \<longleftrightarrow> basic_exits_by e binp fs reason)
   \<and> (errorLog st \<noteq> None \<longrightarrow>
        outcome (outer_iteration e cs ctx task (st\<lparr>errorLog := Some []\<rparr>) inp fs)
          = outcome (outer_iteration e cs ctx task st inp fs))
   \<and> outcome (outer_iteration_basic e ctx mp (st\<lparr>errorLog := Some []\<rparr>) binp fs)
       = outcome (outer_iteration_basic e ctx mp st binp fs)"
proof (intro conjI)
  show "(\<exists>st' fs'. run_loop e cs ctx task st fs inps = Exited reason st' fs') \<longleftrightarrow>
      (\<exists>k st0 fs0. k < length inps
          \<and> run_loop e cs ctx task st fs (take k inps) = Running st0 fs0
          \<and> exits_by e cs ctx task st0 (inps ! k) fs0 reason)"
    unfolding run_loop_exit_iff outcome_exit_iff ..
  show "(\<exists>st' fs'. run_loop_basic e ctx mp st fs binps = Exited reason st' fs') \<longleftrightarrow>
      (\<exists>k st0 fs0. k < length binps
          \<and> run_loop_basic e ctx mp st fs (take k binps) = Running st0 fs0
          \<and> basic_exits_by e (binps ! k) fs0 reason)"
    unfolding run_loop_basic_exit_iff basic_outcome_exit_iff ..
  show "outcome (outer_iteration e cs ctx task st inp fs) = Exit reason
        \<longleftrightarrow> exits_by e cs ctx task st inp fs reason"
    by (rule outcome_exit_iff)
  show "outcome (outer_iteration_basic e ctx mp st binp fs) = Exit reason
        \<longleftrightarrow> basic_exits_by e binp fs reason"
    by (rule basic_outcome_exit_iff)
  show "errorLog st \<noteq> None \<longrightarrow>
        outcome (outer_iteration e cs ctx task (st\<lparr>errorLog := Some []\<rparr>) inp fs)
          = outcome (outer_iteration e cs ctx task st inp fs)"
    using outer_iteration_pending[of st _ e cs ctx task "[]" inp fs] by auto
  show "outcome (outer_iteration_basic e ctx mp (st\<lparr>errorLog := Some []\<rparr>) binp fs)
       = outcome (outer_iteration_basic e ctx mp st binp fs)"
    by (rule outer_iteration_basic_pending)
qed

text \<open>
  Two runs entered with a pending error and left at once by the sentinel, one of each
  loop; and the first iteration ends in the same way when the error log is empty.
\<close>

theorem loop_exits_by_sentinel_or_check_witness:
  "(\<exists>st' fs'. run_loop demo_env [] 8192 ''build it'' pending_state work_dir
                 [reply_with ''nothing yet'' ''PROJECT_DONE'' ''no''] = Exited SentinelSeen st' fs')
   \<and> exits_by demo_env [] 8192 ''build it'' pending_state
         (reply_with ''nothing yet'' ''PROJECT_DONE'' ''no'') work_dir SentinelSeen
   \<and> (\<exists>st' fs'. run_loop_basic demo_env 8192 ''build it'' pending_state agent_dir
                 [\<lparr>b_generate = Reply ''PROJECT_DONE'' [], b_check = Reply ''no'' []\<rparr>]
               = Exited SentinelSeen st' fs')
   \<and> basic_exits_by demo_env \<lparr>b_generate = Reply ''PROJECT_DONE'' [], b_check = Reply ''no'' []\<rparr>
         agent_dir SentinelSeen
   \<and> errorLog pending_state \<noteq> None
   \<and> outcome (outer_iteration demo_env [] 8192 ''build it'' (pending_state\<lparr>errorLog := Some []\<rparr>)
                 (reply_with ''nothing yet'' ''PROJECT_DONE'' ''no'') work_dir) = Exit SentinelSeen"
proof -
  let ?inp = "reply_with ''nothing yet'' ''PROJECT_DONE'' ''no''"
  let ?binp = "\<lparr>b_generate = Reply ''PROJECT_DONE'' [], b_check = Reply ''no'' []\<rparr>"
  have e: "errorLog pending_state = Some ''ReferenceError: x is not defined''"
    by (simp add: pending_state_def)
  have x: "exits_by demo_env [] 8192 ''build it'' pending_state ?inp work_dir SentinelSeen"
    by (simp add: exits_by_def iteration_segment_direct[OF e] trim_def js_whitespace_def)
  have bx: "basic_exits_by demo_env ?binp agent_dir SentinelSeen"
    by (simp add: basic_exits_by_def trim_def js_whitespace_def)
  note main = loop_exits_by_sentinel_or_check[where e=demo_env and cs="[]" and ctx=8192
                and task="''build it''" and mp="''build it''" and st=pending_state
                and reason=SentinelSeen and inp="?inp" and binp="?binp"]
  have "\<exists>k st0 fs0. k < length [?inp]
          \<and> run_loop demo_env [] 8192 ''build it'' pending_state work_dir (take k [?inp])
              = Running st0 fs0
          \<and> exits_by demo_env [] 8192 ''build it'' st0 ([?inp] ! k) fs0 SentinelSeen"
    by (intro exI[of _ 0] exI[of _ pending_state] exI[of _ work_dir]) (simp add: x)
  with main[where fs=work_dir and inps="[?inp]", THEN conjunct1]
  have 1: "\<exists>st' fs'. run_loop demo_env [] 8192 ''build it'' pending_state work_dir [?inp]
                      = Exited SentinelSeen st' fs'"
    by blast
  have "\<exists>k st0 fs0. k < length [?binp]
          \<and> run_loop_basic demo_env 8192 ''build it'' pending_state agent_dir (take k [?binp])
              = Running st0 fs0
          \<and> basic_exits_by demo_env ([?binp] ! k) fs0 SentinelSeen"
    by (intro exI[of _ 0] exI[of _ pending_state] exI[of _ agent_dir]) (simp add: bx)
  with main[where fs=agent_dir and binps="[?binp]", THEN conjunct2, THEN conjunct1]
  have 2: "\<exists>st' fs'. run_loop_basic demo_env 8192 ''build it'' pending_state agent_dir [?binp]
                      = Exited SentinelSeen st' fs'"
    by blast
  note rest = main[where fs=work_dir, THEN conjunct2, THEN conjunct2]
  from rest[THEN conjunct1] x
  have 3: "outcome (outer_iteration demo_env [] 8192 ''build it'' pending_state ?inp work_dir)
             = Exit SentinelSeen"
    by blast
  from rest[THEN conjunct2, THEN conjunct2, THEN conjunct1] e 3
  have 4: "outcome (outer_iteration demo_env [] 8192 ''build it''
                      (pending_state\<lparr>errorLog := Some []\<rparr>) ?inp work_dir) = Exit SentinelSeen"
    by simp
  from 1 x 2 bx e 4 show ?thesis by simp
qed

text \<open>
  In the first agent both tests compare the whole reply: a reply that only contains the
  sentinel, or an answer that only contains \<open>yes\<close>, does not leave the loop.
\<close>

lemma basic_exit_needs_whole_reply:
  "\<not> basic_exits_by e \<lparr>b_generate = Reply ''// PROJECT_DONE'' [], b_check = Reply ''no'' []\<rparr>
        fs SentinelSeen"
  by (simp add: basic_exits_by_def trim_def js_whitespace_def)

section \<open>The error log\<close>

text \<open>
  C2 (the code at the failing input). The generated segment is \<open>process.exit(1)\<close>: the
  child exits with status 1 and writes nothing. The execution has failed, the loop
  continues, and \<open>ErrorLog\<close> is the empty string, as it is after a success.
\<close>

theorem errorLog_empty_after_silent_failure:
  "iteration_execution failing_env [] 8192 ''build it'' fresh_state
      (reply_with ''nothing yet'' ''process.exit(1)'' ''no'') work_dir
     = Some \<lparr>exec_error = True, exec_log = Some []\<rparr>
   \<and> outcome (outer_iteration failing_env [] 8192 ''build it'' fresh_state
                 (reply_with ''nothing yet'' ''process.exit(1)'' ''no'') work_dir) = Continue
   \<and> errorLog (state (outer_iteration failing_env [] 8192 ''build it'' fresh_state
                 (reply_with ''nothing yet'' ''process.exit(1)'' ''no'') work_dir)) = Some []"
proof -
  have e: "errorLog fresh_state = Some []" by (simp add: fresh_state_def)
  have t: "trim ''process.exit(1)'' = ''process.exit(1)''"
    by (simp add: trim_def js_whitespace_def)
  have x: "iteration_execution failing_env [] 8192 ''build it'' fresh_state
             (reply_with ''nothing yet'' ''process.exit(1)'' ''no'') work_dir
           = Some \<lparr>exec_error = True, exec_log = Some []\<rparr>"
    by (rule iteration_execution_direct[OF e]) (simp_all add: t executeSegment_failing)
  from x outer_iteration_failure(1,3)[OF x] show ?thesis by simp
qed

text \<open>
  What does hold between iterations: after an iteration that continues, a non-empty
  \<open>ErrorLog\<close> means that the execution of that iteration failed, and after a successful
  execution \<open>ErrorLog\<close> is the empty string.
\<close>

lemma errorLog_after_iteration:
  assumes "outcome (outer_iteration e cs ctx task st inp fs) = Continue"
  shows "(nonempty (errorLog (state (outer_iteration e cs ctx task st inp fs))) \<longrightarrow>
            (\<exists>res. iteration_execution e cs ctx task st inp fs = Some res \<and> exec_error res))
       \<and> (\<forall>ok. iteration_execution e cs ctx task st inp fs = Some ok \<and> \<not> exec_error ok \<longrightarrow>
            errorLog (state (outer_iteration e cs ctx task st inp fs)) = Some [])"
proof (cases rule: iteration_cases[of e cs ctx task st inp fs])
  case no_segment
  with assms show ?thesis by auto
next
  case (sentinel seg fs1)
  with assms show ?thesis by simp
next
  case (crashed seg fs1 err)
  with assms show ?thesis by simp
next
  case (failure seg fs1 res)
  then show ?thesis by simp
next
  case (success seg fs1 res)
  then show ?thesis by (simp add: nonempty_def)
qed

section \<open>The progress log\<close>

lemma progressLog_prefix:
  "prefix (progressLog st) (progressLog (state (outer_iteration e cs ctx task st inp fs)))"
  by (cases rule: iteration_cases[of e cs ctx task st inp fs]) simp_all

lemma progressLog_changed:
  assumes "progressLog (state (outer_iteration e cs ctx task st inp fs)) \<noteq> progressLog st"
  shows "\<exists>ok. iteration_execution e cs ctx task st inp fs = Some ok \<and> \<not> exec_error ok"
  using assms by (cases rule: iteration_cases[of e cs ctx task st inp fs]) simp_all

lemma basic_failure:
  assumes "basic_execution e inp fs = Some res" "exec_error res"
  shows "progressLog (state (outer_iteration_basic e ctx mp st inp fs)) = progressLog st"
  using assms
  by (auto simp: outer_iteration_basic_def basic_execution_def Let_def
           split: reply.splits prod.splits completion.splits if_splits)

lemma basic_changed:
  assumes "progressLog (state (outer_iteration_basic e ctx mp st inp fs)) \<noteq> progressLog st"
  shows "\<exists>ok. basic_execution e inp fs = Some ok \<and> \<not> exec_error ok"
  using assms
  by (auto simp: outer_iteration_basic_def basic_execution_def Let_def
           split: reply.splits prod.splits completion.splits if_splits)

lemma basic_prefix:
  "prefix (progressLog st) (progressLog (state (outer_iteration_basic e ctx mp st inp fs)))"
  by (auto simp: outer_iteration_basic_def Let_def
           split: reply.splits prod.splits completion.splits if_splits)

text \<open>
  C3. In both loops, an iteration whose execution fails leaves \<open>ProgressLog\<close> as it was;
  \<open>ProgressLog\<close> differs after an iteration only if the segment of that iteration was
  executed without error; and the old log is always a prefix of the new one, so it is
  only ever extended at its end.
\<close>

theorem progressLog_grows_only_on_success:
  "(\<forall>res. iteration_execution e cs ctx task st inp fs = Some res \<and> exec_error res \<longrightarrow>
       progressLog (state (outer_iteration e cs ctx task st inp fs)) = progressLog st)
   \<and> (progressLog (state (outer_iteration e cs ctx task st inp fs)) \<noteq> progressLog st \<longrightarrow>
       (\<exists>ok. iteration_execution e cs ctx task st inp fs = Some ok \<and> \<not> exec_error ok))
   \<and> prefix (progressLog st) (progressLog (state (outer_iteration e cs ctx task st inp fs)))
   \<and> (\<forall>res. basic_execution e binp fs = Some res \<and> exec_error res \<longrightarrow>
       progressLog (state (outer_iteration_basic e ctx mp st binp fs)) = progressLog st)
   \<and> (progressLog (state (outer_iteration_basic e ctx mp st binp fs)) \<noteq> progressLog st \<longrightarrow>
       (\<exists>ok. basic_execution e binp fs = Some ok \<and> \<not> exec_error ok))
   \<and> prefix (progressLog st) (progressLog (state (outer_iteration_basic e ctx mp st binp fs)))"
proof (intro conjI allI impI)
  fix res
  assume "iteration_execution e cs ctx task st inp fs = Some res \<and> exec_error res"
  then show "progressLog (state (outer_iteration e cs ctx task st inp fs)) = progressLog st"
    using outer_iteration_failure(2) by blast
next
  assume "progressLog (state (outer_iteration e cs ctx task st inp fs)) \<noteq> progressLog st"
  then show "\<exists>ok. iteration_execution e cs ctx task st inp fs = Some ok \<and> \<not> exec_error ok"
    by (rule progressLog_changed)
next
  show "prefix (progressLog st) (progressLog (state (outer_iteration e cs ctx task st inp fs)))"
    by (rule progressLog_prefix)
next
  fix res
  assume "basic_execution e binp fs = Some res \<and> exec_error res"
  then show "progressLog (state (outer_iteration_basic e ctx mp st binp fs)) = progressLog st"
    using basic_failure by blast
next
  assume "progressLog (state (outer_iteration_basic e ctx mp st binp fs)) \<noteq> progressLog st"
  then show "\<exists>ok. basic_execution e binp fs = Some ok \<and> \<not> exec_error ok"
    by (rule basic_changed)
next
  show "prefix (progressLog st) (progressLog (state (outer_iteration_basic e ctx mp st binp fs)))"
    by (rule basic_prefix)
qed

text \<open>A failing iteration on a log that already holds an entry.\<close>

theorem progressLog_grows_only_on_success_witness:
  "iteration_execution failing_env [] 8192 ''build it''
      (fresh_state\<lparr>progressLog := ''Code: 1''\<rparr>)
      (reply_with ''nothing yet'' ''process.exit(1)'' ''no'') work_dir
     = Some \<lparr>exec_error = True, exec_log = Some []\<rparr>
   \<and> exec_error \<lparr>exec_error = True, exec_log = Some []\<rparr>
   \<and> progressLog (state (outer_iteration failing_env [] 8192 ''build it''
                            (fresh_state\<lparr>progressLog := ''Code: 1''\<rparr>)
                            (reply_with ''nothing yet'' ''process.exit(1)'' ''no'') work_dir))
     = ''Code: 1''"
proof -
  let ?st = "fresh_state\<lparr>progressLog := ''Code: 1''\<rparr>"
  have e: "errorLog ?st = Some []" by (simp add: fresh_state_def)
  have t: "trim ''process.exit(1)'' = ''process.exit(1)''"
    by (simp add: trim_def js_whitespace_def)
  have x: "iteration_execution failing_env [] 8192 ''build it'' ?st
             (reply_with ''nothing yet'' ''process.exit(1)'' ''no'') work_dir
           = Some \<lparr>exec_error = True, exec_log = Some []\<rparr>"
    by (rule iteration_execution_direct[OF e]) (simp_all add: t executeSegment_failing)
  from progressLog_grows_only_on_success[of failing_env "[]" 8192 "''build it''" ?st
         "reply_with ''nothing yet'' ''process.exit(1)'' ''no''" work_dir]
  have "progressLog (state (outer_iteration failing_env [] 8192 ''build it'' ?st
                            (reply_with ''nothing yet'' ''process.exit(1)'' ''no'') work_dir))
        = progressLog ?st"
    using x by simp
  with x show ?thesis by simp
qed

section \<open>The summary\<close>

lemma length_trim: "length (trim s) \<le> length s"
proof -
  have "length (trim s) \<le> length (dropWhile js_whitespace s)"
    unfolding trim_def using length_dropWhile_le[of js_whitespace "rev (dropWhile js_whitespace s)"]
    by simp
  also have "\<dots> \<le> length s" by (rule length_dropWhile_le)
  finally show ?thesis .
qed

lemma length_slice_last: "0 < n \<Longrightarrow> length (slice_last n s) \<le> n"
  by (simp add: slice_last_def)

text \<open>A context length below 6 gives a slice length of 0, and then the whole log is sent.\<close>

lemma slice_last_zero: "ctx < 6 \<Longrightarrow> slice_last (sliceLen ctx) s = s"
  by (simp add: slice_last_def sliceLen_def)

lemma length_summarizePrompt:
  "length (summarizePrompt ctx progress err summary) =
     length (slice_last (sliceLen ctx) progress) + length (slice_last (sliceLen ctx) err)
     + length summary + 44"
  by (simp add: summarizePrompt_def nl_def)

lemma summary_stored:
  assumes "errorLog st = Some err" "in_summary inp = Reply c calls"
  shows "projectStateSummary (state (outer_iteration e cs ctx task st inp fs)) = trim c"
    and "\<exists>more. sent (outer_iteration e cs ctx task st inp fs) =
            summary_request ctx (progressLog st) err (projectStateSummary st) # more"
proof -
  obtain out fs' reqs where
    g: "generation_turn e cs ctx task (trim c) err (in_generate inp) fs = (out, fs', reqs)"
    by (cases "generation_turn e cs ctx task (trim c) err (in_generate inp) fs") auto
  show "projectStateSummary (state (outer_iteration e cs ctx task st inp fs)) = trim c"
    using assms g
    by (cases out) (simp_all add: outer_iteration_def Let_def execute_and_check_summary)
  show "\<exists>more. sent (outer_iteration e cs ctx task st inp fs) =
            summary_request ctx (progressLog st) err (projectStateSummary st) # more"
  proof (cases out)
    case (Final seg)
    with assms g have "outer_iteration e cs ctx task st inp fs =
        execute_and_check e task (st\<lparr>projectStateSummary := trim c\<rparr>) inp seg fs'
          (summary_request ctx (progressLog st) err (projectStateSummary st) # reqs)"
      by (simp add: outer_iteration_def Let_def)
    with execute_and_check_sent[of e task "st\<lparr>projectStateSummary := trim c\<rparr>" inp seg fs'
           "summary_request ctx (progressLog st) err (projectStateSummary st) # reqs"]
    show ?thesis by auto
  next
    case (GenThrow ex)
    with assms g show ?thesis by (simp add: outer_iteration_def Let_def)
  next
    case Awaiting
    with assms g show ?thesis by (simp add: outer_iteration_def Let_def)
  qed
qed

lemma trim_replicate:
  assumes "\<not> js_whitespace x"
  shows "trim (replicate n x) = replicate n x"
proof (cases n)
  case 0
  then show ?thesis by (simp add: trim_def)
next
  case (Suc m)
  then have "replicate n x \<noteq> []" "hd (replicate n x) = x" "last (replicate n x) = x"
    by simp_all
  with assms show ?thesis by (simp add: trim_plain)
qed

text \<open>
  C9 (as stated, refuted). With the default context length of 8192, the backend answers
  the summary request with 8193 characters. The stored summary has all of them: it is
  longer than the whole context budget, so longer than any fraction of it.
\<close>

theorem summary_unbounded_counterexample:
  "8192 < length (projectStateSummary (state
       (outer_iteration demo_env [] 8192 ''build it'' fresh_state
          (reply_with (replicate 8193 (CHR ''x'')) ''PROJECT_DONE'' ''no'') Map.empty)))"
proof -
  have e: "errorLog fresh_state = Some []" by (simp add: fresh_state_def)
  have i: "in_summary (reply_with (replicate 8193 (CHR ''x'')) ''PROJECT_DONE'' ''no'')
             = Reply (replicate 8193 (CHR ''x'')) []"
    by (simp add: reply_with_def)
  have w: "\<not> js_whitespace (CHR ''x'')" by (simp add: js_whitespace_def)
  show ?thesis
    unfolding summary_stored(1)[OF e i] trim_replicate[OF w] by simp
qed

text \<open>
  C9 (amended). The stored summary is the backend's reply to the summary request with
  the white space at both ends removed, so it is never longer than that reply; no other
  bound is enforced on it. What is bounded is the request: when the slice length
  \<open>round(contextLength / 12)\<close> is at least 1, the tails of \<open>ProgressLog\<close> and of \<open>ErrorLog\<close>
  put into it have at most that many characters each, however long the logs are, and
  the prompt has at most twice the slice length, the length of the previous summary and
  44 characters.
\<close>

theorem summary_is_trimmed_reply:
  assumes "errorLog st = Some err" "in_summary inp = Reply c calls"
  shows "projectStateSummary (state (outer_iteration e cs ctx task st inp fs)) = trim c
       \<and> length (projectStateSummary (state (outer_iteration e cs ctx task st inp fs))) \<le> length c
       \<and> (\<exists>more. sent (outer_iteration e cs ctx task st inp fs) =
            summary_request ctx (progressLog st) err (projectStateSummary st) # more)
       \<and> (0 < sliceLen ctx \<longrightarrow>
            length (slice_last (sliceLen ctx) (progressLog st)) \<le> sliceLen ctx
            \<and> length (slice_last (sliceLen ctx) err) \<le> sliceLen ctx
            \<and> length (summarizePrompt ctx (progressLog st) err (projectStateSummary st))
                \<le> 2 * sliceLen ctx + length (projectStateSummary st) + 44)"
proof -
  have 1: "projectStateSummary (state (outer_iteration e cs ctx task st inp fs)) = trim c"
    by (rule summary_stored(1)[OF assms])
  have 2: "length (projectStateSummary (state (outer_iteration e cs ctx task st inp fs))) \<le> length c"
    unfolding 1 by (rule length_trim)
  note 3 = summary_stored(2)[OF assms, of e cs ctx task fs]
  have 4: "0 < sliceLen ctx \<longrightarrow>
            length (slice_last (sliceLen ctx) (progressLog st)) \<le> sliceLen ctx
            \<and> length (slice_last (sliceLen ctx) err) \<le> sliceLen ctx
            \<and> length (summarizePrompt ctx (progressLog st) err (projectStateSummary st))
                \<le> 2 * sliceLen ctx + length (projectStateSummary st) + 44"
  proof
    assume p: "0 < sliceLen ctx"
    have a: "length (slice_last (sliceLen ctx) (progressLog st)) \<le> sliceLen ctx"
      using p by (rule length_slice_last)
    have b: "length (slice_last (sliceLen ctx) err) \<le> sliceLen ctx"
      using p by (rule length_slice_last)
    from a b show "length (slice_last (sliceLen ctx) (progressLog st)) \<le> sliceLen ctx
            \<and> length (slice_last (sliceLen ctx) err) \<le> sliceLen ctx
            \<and> length (summarizePrompt ctx (progressLog st) err (projectStateSummary st))
                \<le> 2 * sliceLen ctx + length (projectStateSummary st) + 44"
      by (simp add: length_summarizePrompt)
  qed
  from 1 2 3 4 show ?thesis by blast
qed

text \<open>
  A progress log of 10000 characters at the default context length: the stored summary
  is the trimmed reply and the prompt stays within 2 * 683 + 15 + 44 characters.
\<close>

theorem summary_is_trimmed_reply_witness:
  "sliceLen 8192 = 683
   \<and> projectStateSummary (state
        (outer_iteration demo_env [] 8192 ''build it''
           (fresh_state\<lparr>progressLog := replicate 10000 (CHR ''p'')\<rparr>)
           (reply_with ''  two files written  '' ''PROJECT_DONE'' ''no'') Map.empty))
       = ''two files written''
   \<and> length (summarizePrompt 8192 (replicate 10000 (CHR ''p'')) [] ''No active task.'') \<le> 1425"
proof -
  let ?st = "fresh_state\<lparr>progressLog := replicate 10000 (CHR ''p'')\<rparr>"
  have e: "errorLog ?st = Some []" by (simp add: fresh_state_def)
  have i: "in_summary (reply_with ''  two files written  '' ''PROJECT_DONE'' ''no'')
             = Reply ''  two files written  '' []"
    by (simp add: reply_with_def)
  have n: "sliceLen 8192 = 683" by (simp add: sliceLen_def)
  have t: "trim ''  two files written  '' = ''two files written''"
    by (simp add: trim_def js_whitespace_def)
  have p: "progressLog ?st = replicate 10000 (CHR ''p'')"
          "projectStateSummary ?st = ''No active task.''"
    by (simp_all add: fresh_state_def)
  from summary_is_trimmed_reply[OF e i, of demo_env "[]" 8192 "''build it''" Map.empty]
  show ?thesis unfolding p n t by simp
qed


end
